theory Spec2Isabelle
  imports Complex_Main "HOL-Library.Word" "HOL-Library.Multiset"
begin

section \<open>Text formatting\<close>

text \<open>
  Go strings are byte sequences; they are modelled by \<open>string\<close>. \<open>fmt.Sprintf\<close> with
  \<open>%s\<close> is concatenation, and \<open>%d\<close> prints a signed decimal numeral.
\<close>

definition digit :: "nat \<Rightarrow> char" where
  "digit n = char_of (48 + n)"

fun showNat :: "nat \<Rightarrow> string" where
  "showNat n = (if n < 10 then [digit n] else showNat (n div 10) @ [digit (n mod 10)])"

declare showNat.simps [simp del]

definition showInt :: "int \<Rightarrow> string" where
  "showInt i = (if i < 0 then CHR ''-'' # showNat (nat (- i)) else showNat (nat i))"

text \<open>A name between single quotes, as in the format \<open>'%s'\<close>.\<close>

definition quoted :: "string \<Rightarrow> string" where
  "quoted s = CHR 0x27 # s @ [CHR 0x27]"


text \<open>\<open>strings.Contains s substr\<close>: \<open>substr\<close> occurs in \<open>s\<close> as a contiguous block.\<close>

fun HasPrefix :: "string \<Rightarrow> string \<Rightarrow> bool" where
  "HasPrefix s [] = True"
| "HasPrefix [] (p # ps) = False"
| "HasPrefix (c # cs) (p # ps) = (c = p \<and> HasPrefix cs ps)"

fun Contains :: "string \<Rightarrow> string \<Rightarrow> bool" where
  "Contains [] substr = (substr = [])"
| "Contains (c # cs) substr = (HasPrefix (c # cs) substr \<or> Contains cs substr)"

section \<open>Data model (pkg/compliance/types.go)\<close>

text \<open>
  The phase, result and status types of the source are named string types, so a value
  read from the cluster can be any string; the constants are the values the code
  compares against.
\<close>

type_synonym ComplianceScanPhase = string
type_synonym ComplianceScanResult = string
type_synonym ComplianceCheckStatus = string
type_synonym ComplianceScanType = string

definition PhasePending :: ComplianceScanPhase where "PhasePending = ''PENDING''"
definition PhaseLaunching :: ComplianceScanPhase where "PhaseLaunching = ''LAUNCHING''"
definition PhaseRunning :: ComplianceScanPhase where "PhaseRunning = ''RUNNING''"
definition PhaseAggregating :: ComplianceScanPhase where "PhaseAggregating = ''AGGREGATING''"
definition PhaseDone :: ComplianceScanPhase where "PhaseDone = ''DONE''"

definition ResultNotAvailable :: ComplianceScanResult where "ResultNotAvailable = ''NOT-AVAILABLE''"
definition ResultCompliant :: ComplianceScanResult where "ResultCompliant = ''COMPLIANT''"
definition ResultNonCompliant :: ComplianceScanResult where "ResultNonCompliant = ''NON-COMPLIANT''"
definition ResultError :: ComplianceScanResult where "ResultError = ''ERROR''"
definition ResultInconsistent :: ComplianceScanResult where "ResultInconsistent = ''INCONSISTENT''"
definition ResultNotApplicable :: ComplianceScanResult where "ResultNotApplicable = ''NOT-APPLICABLE''"

definition CheckPass :: ComplianceCheckStatus where "CheckPass = ''PASS''"
definition CheckFail :: ComplianceCheckStatus where "CheckFail = ''FAIL''"
definition CheckManual :: ComplianceCheckStatus where "CheckManual = ''MANUAL''"
definition CheckError :: ComplianceCheckStatus where "CheckError = ''ERROR''"
definition CheckInfo :: ComplianceCheckStatus where "CheckInfo = ''INFO''"

text \<open>
  Of the Kubernetes object metadata only the name is kept: no modelled function reads
  another metadata field. The nested \<open>Spec\<close> and \<open>Status\<close> structs are flattened into
  the record of the object, each field prefixed by the object it belongs to. A point in
  time is a number of nanoseconds; an optional timestamp (\<open>*metav1.Time\<close>) is an option.
\<close>

type_synonym Time = int

record ComplianceScanStatusWrapper =
  wrapper_Name :: string
  wrapper_Phase :: ComplianceScanPhase
  wrapper_Result :: ComplianceScanResult

record ComplianceSuite =
  suite_Name :: string
  suite_AutoApplyRemediations :: bool
  suite_Schedule :: string
  suite_Phase :: ComplianceScanPhase
  suite_Result :: ComplianceScanResult
  suite_ErrorMessage :: string
  suite_ScanStatuses :: "ComplianceScanStatusWrapper list"

record ComplianceScan =
  scan_Name :: string
  scan_ScanType :: ComplianceScanType
  scan_Profile :: string
  scan_Content :: string
  scan_Phase :: ComplianceScanPhase
  scan_Result :: ComplianceScanResult
  scan_ErrorMessage :: string
  scan_StartTimestamp :: "Time option"
  scan_Warnings :: string

record ComplianceCheckResult =
  check_Name :: string
  check_ID :: string
  check_Status :: ComplianceCheckStatus
  check_Severity :: string
  check_Description :: string
  check_Instructions :: string
  check_Rationale :: string

record ComplianceRemediation =
  remediation_Name :: string
  remediation_Apply :: bool
  remediation_ApplicationState :: string

section \<open>Floating-point numbers (Go's float64)\<close>

text \<open>
  A \<open>float64\<close> is a sign, a mantissa and an exponent; its value is the mantissa times
  two to the exponent, negated when the sign is set. Every operation returns the
  exact result rounded to 53 significant bits, a tie going to the even mantissa, as
  IEEE 754 double precision does. \<open>roundRatio n d\<close> rounds the quotient of two
  positive numbers: \<open>bits\<close> is the length of a number in binary, from which the
  exponent is found, and \<open>roundHalfEven\<close> rounds the scaled quotient to an integer.

  The exponent is not bounded: infinities, NaN and subnormal numbers are not modelled,
  nor is a division by zero. The operands in this program come from 64-bit \<open>int\<close>s
  and the only divisor is checked to be nonzero before, so every quotient and product
  lies between \<open>2 ^ - 64\<close> and \<open>2 ^ 71\<close> in magnitude, inside the range of the normal
  \<open>float64\<close> values. The literal \<open>0\<close> is the positive zero.
\<close>

fun bits :: "nat \<Rightarrow> nat" where
  "bits n = (if n = 0 then 0 else Suc (bits (n div 2)))"

declare bits.simps [simp del]

definition roundHalfEven :: "nat \<Rightarrow> nat \<Rightarrow> nat" where
  "roundHalfEven n d =
     (let q = n div d; r = n mod d in
      if 2 * r < d then q
      else if d < 2 * r then q + 1
      else if even q then q else q + 1)"

definition roundRatio :: "nat \<Rightarrow> nat \<Rightarrow> nat \<times> int" where
  "roundRatio n d =
     (if n = 0 then (0, 0)
      else let k = int (bits n) - int (bits d) - 53;
               k = (if 2 ^ 53 * (d * 2 ^ nat k) \<le> n * 2 ^ nat (- k) then k + 1 else k)
           in (roundHalfEven (n * 2 ^ nat (- k)) (d * 2 ^ nat k), k))"

datatype float64 = Float (negative: bool) (mantissa: nat) (exponent: int)

definition valueOf :: "float64 \<Rightarrow> real" where
  "valueOf x = (if negative x then - 1 else 1) * real (mantissa x) * 2 powi exponent x"

definition fromInt :: "int \<Rightarrow> float64" where
  "fromInt i = (let (m, e) = roundRatio (nat \<bar>i\<bar>) 1 in Float (i < 0) m e)"

definition fdiv :: "float64 \<Rightarrow> float64 \<Rightarrow> float64" where
  "fdiv x y =
     (let (m, e) = roundRatio (mantissa x) (mantissa y)
      in Float (negative x \<noteq> negative y) m (e + exponent x - exponent y))"

definition fmul :: "float64 \<Rightarrow> float64 \<Rightarrow> float64" where
  "fmul x y =
     (let (m, e) = roundRatio (mantissa x * mantissa y) 1
      in Float (negative x \<noteq> negative y) m (e + exponent x + exponent y))"

section \<open>Check counts (pkg/compliance/collector.go)\<close>

text \<open>
  Go's \<open>int\<close> is modelled by \<open>int\<close>. The increments of \<open>GetCheckCounts\<close> cannot
  overflow, since no counter exceeds the length of the slice.
\<close>

record CheckCounts =
  Pass :: int
  Fail :: int
  Manual :: int
  Error :: int
  Info :: int
  Total :: int

definition emptyCounts :: CheckCounts where
  "emptyCounts = \<lparr>Pass = 0, Fail = 0, Manual = 0, Error = 0, Info = 0, Total = 0\<rparr>"

text \<open>The body of the loop of \<open>GetCheckCounts\<close>: the total, then the switch on the status.\<close>

definition countCheck :: "CheckCounts \<Rightarrow> ComplianceCheckResult \<Rightarrow> CheckCounts" where
  "countCheck counts check =
     (let counts = counts\<lparr>Total := Total counts + 1\<rparr> in
      if check_Status check = CheckPass then counts\<lparr>Pass := Pass counts + 1\<rparr>
      else if check_Status check = CheckFail then counts\<lparr>Fail := Fail counts + 1\<rparr>
      else if check_Status check = CheckManual then counts\<lparr>Manual := Manual counts + 1\<rparr>
      else if check_Status check = CheckError then counts\<lparr>Error := Error counts + 1\<rparr>
      else if check_Status check = CheckInfo then counts\<lparr>Info := Info counts + 1\<rparr>
      else counts)"

definition GetCheckCounts :: "ComplianceCheckResult list \<Rightarrow> CheckCounts" where
  "GetCheckCounts checkResults = foldl countCheck emptyCounts checkResults"

text \<open>The statuses that the switch of \<open>GetCheckCounts\<close> has a case for.\<close>

definition tallied :: "ComplianceCheckResult \<Rightarrow> bool" where
  "tallied check = (check_Status check \<in> set [CheckPass, CheckFail, CheckManual, CheckError, CheckInfo])"

definition bucketSum :: "CheckCounts \<Rightarrow> int" where
  "bucketSum counts = Pass counts + Fail counts + Manual counts + Error counts + Info counts"

text \<open>
  The sum of two \<open>int\<close>s wraps around at 64 bits. The percentage is computed in
  \<open>float64\<close>: both counts are converted, the quotient is rounded, and the product
  with 100 is rounded again.
\<close>

definition wrap64 :: "int \<Rightarrow> int" where
  "wrap64 i = (i + 2 ^ 63) mod 2 ^ 64 - 2 ^ 63"

definition CalculateCompliancePercentage :: "CheckCounts \<Rightarrow> float64" where
  "CalculateCompliancePercentage counts =
     (if Total counts = 0 then Float False 0 0
      else let automatedChecks = wrap64 (Pass counts + Fail counts) in
        if automatedChecks = 0 then Float False 0 0
        else fmul (fdiv (fromInt (Pass counts)) (fromInt automatedChecks)) (fromInt 100))"

section \<open>Cluster objects read by the collector and the analyzer\<close>

text \<open>
  The Kubernetes core types, reduced to the fields the code reads. \<open>RestartCount\<close>
  is an \<open>int32\<close>: a 32-bit word, read as two's complement by \<open>sint\<close>. A container
  state holds a pointer per variant; a nil pointer is \<open>None\<close>.
\<close>

type_synonym int32 = "32 word"

record ContainerStateWaiting =
  waiting_Reason :: string
  waiting_Message :: string

record ContainerStateTerminated =
  terminated_Reason :: string
  terminated_Message :: string

record ContainerState =
  Waiting :: "ContainerStateWaiting option"
  Terminated :: "ContainerStateTerminated option"

record ContainerStatus =
  container_Name :: string
  State :: ContainerState
  LastTerminationState :: ContainerState
  RestartCount :: int32

record PodCondition =
  condition_Type :: string
  condition_Status :: string
  condition_Reason :: string
  condition_Message :: string

record Pod =
  pod_Name :: string
  pod_Phase :: string
  pod_Reason :: string
  Conditions :: "PodCondition list"
  ContainerStatuses :: "ContainerStatus list"

record Event =
  event_Type :: string
  event_Message :: string
  event_InvolvedObjectName :: string

definition PodPending :: string where "PodPending = ''Pending''"
definition PodRunning :: string where "PodRunning = ''Running''"
definition PodFailed :: string where "PodFailed = ''Failed''"
definition PodReady :: string where "PodReady = ''Ready''"
definition PodScheduled :: string where "PodScheduled = ''PodScheduled''"
definition ConditionTrue :: string where "ConditionTrue = ''True''"
definition ConditionFalse :: string where "ConditionFalse = ''False''"
definition EventTypeNormal :: string where "EventTypeNormal = ''Normal''"
definition EventTypeWarning :: string where "EventTypeWarning = ''Warning''"

section \<open>The cluster client (pkg/compliance/client.go)\<close>

text \<open>
  A Go \<open>error\<close> is modelled by its message, and \<open>fmt.Errorf("...: %w", err)\<close> by the
  message with the prefix put in front. A call that returns \<open>(value, error)\<close> is a sum:
  \<open>Inl\<close> the error, \<open>Inr\<close> the value.

  The methods of \<open>ComplianceClient\<close> read the cluster and nothing else. The client is
  modelled by what its methods answer: one field per method, a function of the
  method's arguments. Within one call of the collector or the analyzer the cluster's
  answer to a query is taken to be the same each time the query is made.
\<close>

type_synonym error = string

record ComplianceClient =
  GetComplianceSuites :: "error + ComplianceSuite list"
  GetComplianceScans :: "string \<Rightarrow> error + ComplianceScan list"
  GetComplianceCheckResults :: "string \<Rightarrow> string \<Rightarrow> error + ComplianceCheckResult list"
  GetComplianceRemediations :: "string \<Rightarrow> error + ComplianceRemediation list"
  GetOperatorPods :: "error + Pod list"
  GetScannerPods :: "string \<Rightarrow> error + Pod list"
  GetEvents :: "string \<Rightarrow> string \<Rightarrow> error + Event list"

section \<open>Objects as the dynamic client returns them (client.go)\<close>

text \<open>
  The dynamic client returns every compliance object as an
  \<open>unstructured.Unstructured\<close>: the decoded JSON document of the object, a map from
  field names to values. The accessors \<open>NestedString\<close>, \<open>NestedBool\<close> and \<open>NestedMap\<close>
  of the Kubernetes library return a value, a flag and an error; the conversions of
  \<open>client.go\<close> drop the flag and the error of the first two and read the flag of the
  third only. A field that is missing or holds a value of another type gives the zero
  value, and for \<open>NestedMap\<close> no map.
\<close>

datatype json = JNull | JBool bool | JNumber int | JString string
  | JArray "json list" | JObject "(string \<times> json) list"













section \<open>The snapshot collector (pkg/compliance/collector.go)\<close>

record PodStatus =
  status_Name :: string
  status_Phase :: string
  status_Reason :: string
  status_Ready :: bool
  status_Restarts :: int32

record OperatorHealthStatus =
  OperatorPods :: "PodStatus list"
  IsHealthy :: bool
  Issues :: "string list"

record ComplianceData =
  Suites :: "ComplianceSuite list"
  Scans :: "string \<rightharpoonup> ComplianceScan"
  CheckResults :: "string \<rightharpoonup> ComplianceCheckResult list"
  Remediations :: "string \<rightharpoonup> ComplianceRemediation list"
  OperatorStatus :: OperatorHealthStatus
  Timestamp :: Time

text \<open>\<open>isPodReady\<close>: the status of the first condition of type Ready decides.\<close>

fun conditionsReady :: "PodCondition list \<Rightarrow> bool" where
  "conditionsReady [] = False"
| "conditionsReady (condition # rest) =
     (if condition_Type condition = PodReady then condition_Status condition = ConditionTrue
      else conditionsReady rest)"

definition isPodReady :: "Pod \<Rightarrow> bool" where
  "isPodReady pod = conditionsReady (Conditions pod)"

text \<open>
  The restart loop of \<open>collectOperatorStatus\<close>: \<open>podStatus.Restarts += cs.RestartCount\<close>
  over the containers of the pod, in \<open>int32\<close> arithmetic.
\<close>

definition countRestarts :: "Pod \<Rightarrow> int32" where
  "countRestarts pod = foldl (\<lambda>restarts cs. restarts + RestartCount cs) 0 (ContainerStatuses pod)"

text \<open>The body of the loop over the operator pods.\<close>

definition checkOperatorPod :: "OperatorHealthStatus \<Rightarrow> Pod \<Rightarrow> OperatorHealthStatus" where
  "checkOperatorPod status pod =
     (let podStatus = \<lparr>status_Name = pod_Name pod, status_Phase = pod_Phase pod,
            status_Reason = [], status_Ready = isPodReady pod,
            status_Restarts = countRestarts pod\<rparr>;
          (status, podStatus) =
            (if pod_Phase pod \<noteq> PodRunning
             then (status\<lparr>IsHealthy := False,
                     Issues := Issues status @
                       [''Pod '' @ pod_Name pod @ '' is in phase '' @ pod_Phase pod]\<rparr>,
                   podStatus\<lparr>status_Reason := pod_Phase pod\<rparr>)
             else (status, podStatus));
          status =
            (if \<not> status_Ready podStatus
             then status\<lparr>IsHealthy := False,
                    Issues := Issues status @ [''Pod '' @ pod_Name pod @ '' is not ready'']\<rparr>
             else status);
          status =
            (if 5 < sint (status_Restarts podStatus)
             then status\<lparr>Issues := Issues status @
                    [''Pod '' @ pod_Name pod @ '' has restarted '' @
                     showInt (sint (status_Restarts podStatus)) @ '' times'']\<rparr>
             else status)
      in status\<lparr>OperatorPods := OperatorPods status @ [podStatus]\<rparr>)"

text \<open>
  \<open>collectOperatorStatus\<close>. On an error the source returns the initial status beside
  the error; its only caller drops that status, and the model returns the error alone.
\<close>

definition collectOperatorStatus :: "ComplianceClient \<Rightarrow> error + OperatorHealthStatus" where
  "collectOperatorStatus c =
     (let status = \<lparr>OperatorPods = [], IsHealthy = True, Issues = []\<rparr> in
      case GetOperatorPods c of
        Inl err \<Rightarrow> Inl (''failed to get operator pods: '' @ err)
      | Inr pods \<Rightarrow>
          if length pods = 0
          then Inr (status\<lparr>IsHealthy := False,
                      Issues := Issues status @ [''No compliance operator pods found'']\<rparr>)
          else Inr (foldl checkOperatorPod status pods))"

text \<open>
  The body of the loop of \<open>CollectAllData\<close> over the scans: the scan is stored under
  its name; its check results and its remediations are stored when their fetch returns
  no error.
\<close>

definition collectScan :: "ComplianceClient \<Rightarrow> ComplianceData \<Rightarrow> ComplianceScan \<Rightarrow> ComplianceData" where
  "collectScan c data scan =
     (let data = data\<lparr>Scans := (Scans data)(scan_Name scan \<mapsto> scan)\<rparr>;
          data = (case GetComplianceCheckResults c (scan_Name scan) [] of
                    Inr checkResults \<Rightarrow>
                      data\<lparr>CheckResults := (CheckResults data)(scan_Name scan \<mapsto> checkResults)\<rparr>
                  | Inl err \<Rightarrow> data)
      in case GetComplianceRemediations c (scan_Name scan) of
           Inr remediations \<Rightarrow>
             data\<lparr>Remediations := (Remediations data)(scan_Name scan \<mapsto> remediations)\<rparr>
         | Inl err \<Rightarrow> data)"

text \<open>\<open>CollectAllData\<close>; \<open>now\<close> is the reading of the clock (\<open>time.Now()\<close>).\<close>

definition CollectAllData :: "ComplianceClient \<Rightarrow> Time \<Rightarrow> error + ComplianceData" where
  "CollectAllData c now =
     (let data = \<lparr>Suites = [], Scans = Map.empty, CheckResults = Map.empty,
                   Remediations = Map.empty,
                   OperatorStatus = \<lparr>OperatorPods = [], IsHealthy = False, Issues = []\<rparr>,
                   Timestamp = now\<rparr> in
      case GetComplianceSuites c of
        Inl err \<Rightarrow> Inl (''failed to collect suites: '' @ err)
      | Inr suites \<Rightarrow>
          (let data = data\<lparr>Suites := suites\<rparr> in
           (case GetComplianceScans c [] of
              Inl err \<Rightarrow> Inl (''failed to collect scans: '' @ err)
            | Inr allScans \<Rightarrow>
                (let data = foldl (collectScan c) data allScans in
                 (case collectOperatorStatus c of
                    Inl err \<Rightarrow> Inl (''failed to collect operator status: '' @ err)
                  | Inr operatorStatus \<Rightarrow> Inr (data\<lparr>OperatorStatus := operatorStatus\<rparr>))))))"

section \<open>Durations (Go's package time)\<close>

text \<open>
  A \<open>time.Duration\<close> is a signed 64-bit count of nanoseconds. \<open>Sub\<close> is the
  difference of two points in time, held at the least or greatest duration when it does
  not fit. \<open>time.Since t\<close> is \<open>Sub\<close> of the clock's reading and \<open>t\<close>; the reading of the
  clock is the argument \<open>now\<close> of the functions that ask for it.
\<close>

type_synonym Duration = int

definition minDuration :: Duration where "minDuration = - (2 ^ 63)"
definition maxDuration :: Duration where "maxDuration = 2 ^ 63 - 1"
definition Second :: Duration where "Second = 1000000000"
definition Minute :: Duration where "Minute = 60 * Second"

definition Sub :: "Time \<Rightarrow> Time \<Rightarrow> Duration" where
  "Sub t u =
     (let d = t - u in
      if d < minDuration then minDuration else if maxDuration < d then maxDuration else d)"

definition Since :: "Time \<Rightarrow> Time \<Rightarrow> Duration" where
  "Since now t = Sub now t"

text \<open>
  \<open>Duration.Round\<close>: the nearest multiple of \<open>m\<close>, halves away from zero, held at
  the least or greatest duration when the multiple does not fit.
\<close>

definition Round :: "Duration \<Rightarrow> Duration \<Rightarrow> Duration" where
  "Round d m =
     (if m \<le> 0 then d
      else let r = \<bar>d\<bar> mod m in
        if d < 0
        then (if 2 * r < m then d + r
              else let d1 = d - m + r in if minDuration \<le> d1 then d1 else minDuration)
        else (if 2 * r < m then d - r
              else let d1 = d + m - r in if d1 \<le> maxDuration then d1 else maxDuration))"

text \<open>
  \<open>Duration.String\<close>, which \<open>%v\<close> prints: hours, minutes and seconds as in
  \<open>72h3m0.5s\<close>, a duration under a second in a smaller unit, trailing zeros of the
  fraction left out. \<open>fmtFrac\<close> prints the last \<open>prec\<close> decimal digits of \<open>v\<close> in
  front of \<open>buf\<close> and returns the text with the rest of \<open>v\<close>.
\<close>

fun fmtFrac :: "nat \<Rightarrow> nat \<Rightarrow> bool \<Rightarrow> string \<Rightarrow> string \<times> nat" where
  "fmtFrac 0 v print buf = (if print then CHR ''.'' # buf else buf, v)"
| "fmtFrac (Suc prec) v print buf =
     (let print = (print \<or> v mod 10 \<noteq> 0) in
      fmtFrac prec (v div 10) print (if print then digit (v mod 10) # buf else buf))"

definition formatDuration :: "Duration \<Rightarrow> string" where
  "formatDuration d =
     (let u = nat \<bar>d\<bar>;
          body =
            (if u < 1000000000
             then (if u = 0 then ''0s''
                   else let (prec, unit) =
                          (if u < 1000 then (0, ''ns'')
                           else if u < 1000000 then (3, [CHR 0xC2, CHR 0xB5, CHR ''s''])
                           else (6, ''ms''));
                        (buf, u) = fmtFrac prec u False unit
                     in showNat u @ buf)
             else let (buf, u) = fmtFrac 9 u False ''s'';
                      buf = showNat (u mod 60) @ buf;
                      u = u div 60
                   in if 0 < u
                      then (let buf = showNat (u mod 60) @ CHR ''m'' # buf;
                                u = u div 60
                            in if 0 < u then showNat u @ CHR ''h'' # buf else buf)
                      else buf)
      in if d < 0 then CHR ''-'' # body else body)"

section \<open>The diagnosis engine (pkg/compliance/analyzer.go)\<close>

type_synonym IssueType = string
type_synonym IssueSeverity = string

definition IssueTypeStuckScan :: IssueType where "IssueTypeStuckScan = ''StuckScan''"
definition IssueTypeFailedPod :: IssueType where "IssueTypeFailedPod = ''FailedPod''"
definition IssueTypePermission :: IssueType where "IssueTypePermission = ''Permission''"
definition IssueTypeResourceConstraint :: IssueType where
  "IssueTypeResourceConstraint = ''ResourceConstraint''"
definition IssueTypeOOM :: IssueType where "IssueTypeOOM = ''OutOfMemory''"
definition IssueTypeMisconfiguration :: IssueType where
  "IssueTypeMisconfiguration = ''Misconfiguration''"

definition SeverityCritical :: IssueSeverity where "SeverityCritical = ''Critical''"
definition SeverityWarning :: IssueSeverity where "SeverityWarning = ''Warning''"
definition SeverityInfo :: IssueSeverity where "SeverityInfo = ''Info''"

record Issue =
  Type :: IssueType
  Severity :: IssueSeverity
  Description :: string
  Resources :: "string list"
  Suggestion :: string

subsection \<open>DetectStuckScans\<close>

text \<open>The three checks of the loop body, each giving the issues it appends.\<close>

definition runningIssues :: "Time \<Rightarrow> ComplianceScan \<Rightarrow> Issue list" where
  "runningIssues now scan =
     (if scan_Phase scan = PhaseRunning
      then (case scan_StartTimestamp scan of
              None \<Rightarrow> []
            | Some start \<Rightarrow>
                (let elapsed = Since now start in
                 if 30 * Minute < elapsed
                 then [\<lparr>Type = IssueTypeStuckScan, Severity = SeverityCritical,
                        Description = ''Scan '' @ quoted (scan_Name scan) @
                          '' has been in RUNNING phase for '' @
                          formatDuration (Round elapsed Minute),
                        Resources = [scan_Name scan],
                        Suggestion = ''Check scanner pod logs and events. The scan may be stuck due to pod failures, resource constraints, or permission issues.''\<rparr>]
                 else []))
      else [])"

definition launchingIssues :: "Time \<Rightarrow> ComplianceScan \<Rightarrow> Issue list" where
  "launchingIssues now scan =
     (if scan_Phase scan = PhaseLaunching
      then (case scan_StartTimestamp scan of
              None \<Rightarrow> []
            | Some start \<Rightarrow>
                if 10 * Minute < Since now start
                then [\<lparr>Type = IssueTypeStuckScan, Severity = SeverityCritical,
                       Description = ''Scan '' @ quoted (scan_Name scan) @
                         '' stuck in LAUNCHING phase'',
                       Resources = [scan_Name scan],
                       Suggestion = ''Check if scanner pods are being created. Look for resource constraints or ImagePullBackOff errors.''\<rparr>]
                else [])
      else [])"

definition errorResultIssues :: "ComplianceScan \<Rightarrow> Issue list" where
  "errorResultIssues scan =
     (if scan_Result scan = ResultError
      then [\<lparr>Type = IssueTypeFailedPod, Severity = SeverityCritical,
             Description = ''Scan '' @ quoted (scan_Name scan) @
               '' completed with ERROR result: '' @ scan_ErrorMessage scan,
             Resources = [scan_Name scan],
             Suggestion = ''Review scan logs and error message. Common causes include missing content, invalid profiles, or scanner pod failures.''\<rparr>]
      else [])"

definition DetectStuckScans :: "Time \<Rightarrow> ComplianceScan list \<Rightarrow> Issue list" where
  "DetectStuckScans now scans =
     foldl (\<lambda>issues scan.
              issues @ runningIssues now scan @ launchingIssues now scan @ errorResultIssues scan)
       [] scans"

subsection \<open>DetectFailedPods\<close>

text \<open>The first loop over the containers of a pod: the waiting state, then the last termination.\<close>

definition waitingIssues :: "Pod \<Rightarrow> ContainerStatus \<Rightarrow> Issue list" where
  "waitingIssues pod cs =
     (case Waiting (State cs) of
        None \<Rightarrow> []
      | Some waiting \<Rightarrow>
          (let reason = waiting_Reason waiting in
           if reason = ''ImagePullBackOff'' \<or> reason = ''ErrImagePull''
           then [\<lparr>Type = IssueTypeFailedPod, Severity = SeverityCritical,
                  Description = ''Pod '' @ quoted (pod_Name pod) @ '' cannot pull image: '' @
                    waiting_Message waiting,
                  Resources = [pod_Name pod],
                  Suggestion = ''Verify image name and registry credentials. Check network connectivity to image registry.''\<rparr>]
           else if reason = ''CrashLoopBackOff''
           then [\<lparr>Type = IssueTypeFailedPod, Severity = SeverityCritical,
                  Description = ''Pod '' @ quoted (pod_Name pod) @ '' is crash looping'',
                  Resources = [pod_Name pod],
                  Suggestion = ''Check container logs for crash details. The scanner may be encountering a runtime error.''\<rparr>]
           else []))"

definition oomIssues :: "Pod \<Rightarrow> ContainerStatus \<Rightarrow> Issue list" where
  "oomIssues pod cs =
     (case Terminated (LastTerminationState cs) of
        None \<Rightarrow> []
      | Some terminated \<Rightarrow>
          if terminated_Reason terminated = ''OOMKilled''
          then [\<lparr>Type = IssueTypeOOM, Severity = SeverityCritical,
                 Description = ''Container '' @ quoted (container_Name cs) @ '' in pod '' @
                   quoted (pod_Name pod) @ '' was killed due to out of memory'',
                 Resources = [pod_Name pod],
                 Suggestion = ''Increase memory limits for scanner pods in ScanSetting. The scan requires more memory than allocated.''\<rparr>]
          else [])"

text \<open>The second loop over the containers: the restart count of each container.\<close>

definition restartIssues :: "Pod \<Rightarrow> ContainerStatus \<Rightarrow> Issue list" where
  "restartIssues pod cs =
     (if 5 < sint (RestartCount cs)
      then [\<lparr>Type = IssueTypeFailedPod, Severity = SeverityWarning,
             Description = ''Container '' @ quoted (container_Name cs) @ '' in pod '' @
               quoted (pod_Name pod) @ '' has restarted '' @
               showInt (sint (RestartCount cs)) @ '' times'',
             Resources = [pod_Name pod],
             Suggestion = ''Investigate why the container is restarting. Check logs for errors.''\<rparr>]
      else [])"

definition failedPhaseIssues :: "Pod \<Rightarrow> Issue list" where
  "failedPhaseIssues pod =
     (if pod_Phase pod = PodFailed
      then [\<lparr>Type = IssueTypeFailedPod, Severity = SeverityCritical,
             Description = ''Scanner pod '' @ quoted (pod_Name pod) @ '' failed with reason: '' @
               pod_Reason pod,
             Resources = [pod_Name pod],
             Suggestion = ''Check pod logs for error details. The scanner may have encountered an error during scan execution.''\<rparr>]
      else [])"

text \<open>The body of the loop over the pods.\<close>

definition checkPod :: "Issue list \<Rightarrow> Pod \<Rightarrow> Issue list" where
  "checkPod issues pod =
     (let issues = issues @ failedPhaseIssues pod;
          issues = foldl (\<lambda>issues cs. issues @ waitingIssues pod cs @ oomIssues pod cs)
                     issues (ContainerStatuses pod)
      in foldl (\<lambda>issues cs. issues @ restartIssues pod cs) issues (ContainerStatuses pod))"

definition DetectFailedPods :: "Pod list \<Rightarrow> Issue list" where
  "DetectFailedPods pods = foldl checkPod [] pods"

subsection \<open>DetectPermissionIssuesForScan\<close>

definition permissionKeywords :: "string list" where
  "permissionKeywords =
     [''Forbidden'', ''Unauthorized'', ''denied'', ''insufficient permissions'',
      ''cannot create'', ''cannot get'', ''cannot list'']"

text \<open>
  The loop over the keywords: the first keyword that the message contains appends one
  issue and breaks out of the loop.
\<close>

fun keywordIssues :: "string \<Rightarrow> Event \<Rightarrow> string list \<Rightarrow> Issue list" where
  "keywordIssues scanName event [] = []"
| "keywordIssues scanName event (keyword # keywords) =
     (if Contains (event_Message event) keyword
      then [\<lparr>Type = IssueTypePermission, Severity = SeverityCritical,
             Description = ''Permission issue in scan '' @ quoted scanName @ '': '' @
               event_Message event,
             Resources = [scanName, event_InvolvedObjectName event],
             Suggestion = ''Check ServiceAccount permissions and RBAC configuration. The compliance operator may not have sufficient permissions.''\<rparr>]
      else keywordIssues scanName event keywords)"

definition eventIssues :: "string \<Rightarrow> Event \<Rightarrow> Issue list" where
  "eventIssues scanName event =
     (if event_Type event = EventTypeWarning
      then keywordIssues scanName event permissionKeywords
      else [])"

text \<open>
  On an error the source returns the empty issue list beside the error; the model
  returns the error alone.
\<close>

definition DetectPermissionIssuesForScan :: "ComplianceClient \<Rightarrow> string \<Rightarrow> error + Issue list" where
  "DetectPermissionIssuesForScan c scanName =
     (case GetEvents c ''ComplianceScan'' scanName of
        Inl err \<Rightarrow> Inl err
      | Inr events \<Rightarrow>
          Inr (foldl (\<lambda>issues event. issues @ eventIssues scanName event) [] events))"

subsection \<open>AnalyzeScanFailure\<close>

definition AnalyzeScanFailure :: "ComplianceScan \<Rightarrow> Issue list" where
  "AnalyzeScanFailure scan =
     (if scan_Result scan \<noteq> ResultError \<and> scan_Result scan \<noteq> ResultNonCompliant then []
      else
        (let issues =
               (if scan_ErrorMessage scan \<noteq> []
                then [\<lparr>Type = IssueTypeFailedPod, Severity = SeverityCritical,
                       Description = ''Scan '' @ quoted (scan_Name scan) @ '' failed: '' @
                         scan_ErrorMessage scan,
                       Resources = [scan_Name scan],
                       Suggestion = ''Review the error message and check scanner pod logs for more details.''\<rparr>]
                else [])
         in if scan_Result scan = ResultNonCompliant
            then issues @
              [\<lparr>Type = IssueTypeMisconfiguration, Severity = SeverityWarning,
                Description = ''Scan '' @ quoted (scan_Name scan) @
                  '' found compliance violations'',
                Resources = [scan_Name scan],
                Suggestion = ''Review failed checks and apply available remediations. Some checks may require manual remediation.''\<rparr>]
            else issues))"

section \<open>The status overview (pkg/mcp/types.go)\<close>








text \<open>
  The result-count table of a suite: \<open>countScanResults\<close> is the loop that counts the
  scan statuses by result in a map, and \<open>resultCountLines\<close> writes one line per entry
  of the map, in the order \<open>visited\<close> of the traversal.
\<close>

definition countScanResults :: "ComplianceScanStatusWrapper list \<Rightarrow> (ComplianceScanResult \<rightharpoonup> int)" where
  "countScanResults scanStatuses =
     foldl (\<lambda>resultCounts scanStatus.
              resultCounts(wrapper_Result scanStatus \<mapsto>
                (case resultCounts (wrapper_Result scanStatus) of None \<Rightarrow> 0 | Some n \<Rightarrow> n) + 1))
       Map.empty scanStatuses"












section \<open>Concrete inputs\<close>

text \<open>
  A check result with a status that the cluster reports and the switch of
  \<open>GetCheckCounts\<close> has no case for.
\<close>

definition notApplicableCheck :: ComplianceCheckResult where
  "notApplicableCheck =
     \<lparr>check_Name = ''ocp4-cis-node-worker-file-owner-kubelet'', check_ID = [],
      check_Status = ''NOT-APPLICABLE'', check_Severity = ''medium'',
      check_Description = [], check_Instructions = [], check_Rationale = []\<rparr>"

text \<open>Operator pods that are Running and Ready, with the restart counts of their containers.\<close>

definition noState :: ContainerState where
  "noState = \<lparr>Waiting = None, Terminated = None\<rparr>"

definition readyCondition :: PodCondition where
  "readyCondition = \<lparr>condition_Type = ''Ready'', condition_Status = ''True'',
     condition_Reason = [], condition_Message = []\<rparr>"

definition restartedPod :: Pod where
  "restartedPod =
     \<lparr>pod_Name = ''compliance-operator-7d9f'', pod_Phase = ''Running'', pod_Reason = [],
      Conditions = [readyCondition],
      ContainerStatuses =
        [\<lparr>container_Name = ''compliance-operator'', State = noState,
          LastTerminationState = noState, RestartCount = 3\<rparr>,
         \<lparr>container_Name = ''metrics-proxy'', State = noState,
          LastTerminationState = noState, RestartCount = 3\<rparr>]\<rparr>"

definition quietPod :: Pod where
  "quietPod =
     \<lparr>pod_Name = ''compliance-operator-5c6b'', pod_Phase = ''Running'', pod_Reason = [],
      Conditions = [readyCondition],
      ContainerStatuses =
        [\<lparr>container_Name = ''compliance-operator'', State = noState,
          LastTerminationState = noState, RestartCount = 2\<rparr>,
         \<lparr>container_Name = ''metrics-proxy'', State = noState,
          LastTerminationState = noState, RestartCount = 3\<rparr>]\<rparr>"

definition operatorClient :: "Pod list \<Rightarrow> ComplianceClient" where
  "operatorClient pods =
     \<lparr>GetComplianceSuites = Inr [], GetComplianceScans = (\<lambda>suiteLabel. Inr []),
      GetComplianceCheckResults = (\<lambda>scanName statusFilter. Inr []),
      GetComplianceRemediations = (\<lambda>scanName. Inr []),
      GetOperatorPods = Inr pods,
      GetScannerPods = (\<lambda>scanName. Inr []),
      GetEvents = (\<lambda>objectKind objectName. Inr [])\<rparr>"

text \<open>Two scans, and scans of one name in the phase Running or with the result ERROR.\<close>

definition platformScan :: ComplianceScan where
  "platformScan =
     \<lparr>scan_Name = ''ocp4-cis'', scan_ScanType = ''Platform'', scan_Profile = [],
      scan_Content = [], scan_Phase = ''DONE'', scan_Result = ''NON-COMPLIANT'',
      scan_ErrorMessage = [], scan_StartTimestamp = None, scan_Warnings = []\<rparr>"

definition nodeScan :: ComplianceScan where
  "nodeScan =
     \<lparr>scan_Name = ''ocp4-cis-node-worker'', scan_ScanType = ''Node'', scan_Profile = [],
      scan_Content = [], scan_Phase = ''DONE'', scan_Result = ''COMPLIANT'',
      scan_ErrorMessage = [], scan_StartTimestamp = None, scan_Warnings = []\<rparr>"

definition runningScan :: "Time option \<Rightarrow> ComplianceScan" where
  "runningScan start =
     \<lparr>scan_Name = ''rhcos4-moderate-worker'', scan_ScanType = ''Node'', scan_Profile = [],
      scan_Content = [], scan_Phase = ''RUNNING'', scan_Result = ''NOT-AVAILABLE'',
      scan_ErrorMessage = [], scan_StartTimestamp = start, scan_Warnings = []\<rparr>"

definition erroredScan :: ComplianceScan where
  "erroredScan =
     \<lparr>scan_Name = ''ocp4-cis'', scan_ScanType = ''Platform'', scan_Profile = [],
      scan_Content = [], scan_Phase = ''DONE'', scan_Result = ''ERROR'',
      scan_ErrorMessage = [], scan_StartTimestamp = None, scan_Warnings = []\<rparr>"

text \<open>
  A cluster with two scans where listing the check results of \<open>ocp4-cis\<close> fails, and
  one where every listing succeeds but that of the operator pods.
\<close>

definition partialClient :: ComplianceClient where
  "partialClient =
     \<lparr>GetComplianceSuites = Inr [],
      GetComplianceScans = (\<lambda>suiteLabel. Inr [platformScan, nodeScan]),
      GetComplianceCheckResults = (\<lambda>scanName statusFilter.
        if scanName = ''ocp4-cis'' then Inl ''failed to list check results: timeout''
        else Inr [notApplicableCheck]),
      GetComplianceRemediations = (\<lambda>scanName. Inr []),
      GetOperatorPods = Inr [quietPod],
      GetScannerPods = (\<lambda>scanName. Inr []),
      GetEvents = (\<lambda>objectKind objectName. Inr [])\<rparr>"

definition noPodsClient :: ComplianceClient where
  "noPodsClient =
     \<lparr>GetComplianceSuites = Inr [],
      GetComplianceScans = (\<lambda>suiteLabel. Inr [platformScan, nodeScan]),
      GetComplianceCheckResults = (\<lambda>scanName statusFilter. Inr [notApplicableCheck]),
      GetComplianceRemediations = (\<lambda>scanName. Inr []),
      GetOperatorPods = Inl ''failed to list operator pods: connection refused'',
      GetScannerPods = (\<lambda>scanName. Inr []),
      GetEvents = (\<lambda>objectKind objectName. Inr [])\<rparr>"

text \<open>
  An event with a message that holds two of the permission keywords, a scanner pod with
  one container killed for memory and one that never terminated, and the scan statuses
  of a suite with two different results.
\<close>

definition forbiddenEvent :: "string \<Rightarrow> Event" where
  "forbiddenEvent eventType =
     \<lparr>event_Type = eventType, event_Message = ''Forbidden: cannot list pods'',
      event_InvolvedObjectName = ''ocp4-cis''\<rparr>"

definition eventsClient :: "Event list \<Rightarrow> ComplianceClient" where
  "eventsClient events =
     \<lparr>GetComplianceSuites = Inr [], GetComplianceScans = (\<lambda>suiteLabel. Inr []),
      GetComplianceCheckResults = (\<lambda>scanName statusFilter. Inr []),
      GetComplianceRemediations = (\<lambda>scanName. Inr []),
      GetOperatorPods = Inr [],
      GetScannerPods = (\<lambda>scanName. Inr []),
      GetEvents = (\<lambda>objectKind objectName. Inr events)\<rparr>"

definition oomPod :: Pod where
  "oomPod =
     \<lparr>pod_Name = ''ocp4-cis-api-checks-pod'', pod_Phase = ''Running'', pod_Reason = [],
      Conditions = [readyCondition],
      ContainerStatuses =
        [\<lparr>container_Name = ''scanner'', State = noState,
          LastTerminationState =
            \<lparr>Waiting = None,
             Terminated = Some \<lparr>terminated_Reason = ''OOMKilled'', terminated_Message = []\<rparr>\<rparr>,
          RestartCount = 1\<rparr>,
         \<lparr>container_Name = ''log-collector'', State = noState,
          LastTerminationState = noState, RestartCount = 0\<rparr>]\<rparr>"









section \<open>Evaluation of the text formatting\<close>

text \<open>
  Rewrite rules that print a numeral: the defining equations of \<open>showNat\<close> with their
  conditions, the digits, and \<open>fmtFrac\<close> at a numeral.
\<close>

lemma digit_simps:
  "digit 0 = CHR ''0''" "digit (Suc 0) = CHR ''1''" "digit 1 = CHR ''1''" "digit 2 = CHR ''2''" "digit 3 = CHR ''3''"
  "digit 4 = CHR ''4''" "digit 5 = CHR ''5''" "digit 6 = CHR ''6''" "digit 7 = CHR ''7''"
  "digit 8 = CHR ''8''" "digit 9 = CHR ''9''"
  by code_simp+

lemma showNat_small: "n < 10 \<Longrightarrow> showNat n = [digit n]"
  by (simp add: showNat.simps)

lemma showNat_large: "10 \<le> n \<Longrightarrow> showNat n = showNat (n div 10) @ [digit (n mod 10)]"
  by (subst showNat.simps) simp

lemma fmtFrac_numeral:
  "fmtFrac (numeral k) v print buf =
     fmtFrac (pred_numeral k) (v div 10) (print \<or> v mod 10 \<noteq> 0)
       (if print \<or> v mod 10 \<noteq> 0 then digit (v mod 10) # buf else buf)"
proof -
  have "fmtFrac (Suc (pred_numeral k)) v print buf =
     fmtFrac (pred_numeral k) (v div 10) (print \<or> v mod 10 \<noteq> 0)
       (if print \<or> v mod 10 \<noteq> 0 then digit (v mod 10) # buf else buf)"
    by (simp only: fmtFrac.simps Let_def)
  then show ?thesis by (simp only: numeral_eq_Suc [symmetric])
qed

lemma fmtFrac_1:
  "fmtFrac 1 v print buf =
     fmtFrac 0 (v div 10) (print \<or> v mod 10 \<noteq> 0)
       (if print \<or> v mod 10 \<noteq> 0 then digit (v mod 10) # buf else buf)"
  by (simp add: Let_def)

section \<open>Lists built by appending in a loop\<close>

lemma foldl_append_concat: "foldl (\<lambda>acc x. acc @ f x) a xs = a @ concat (map f xs)"
  by (induction xs arbitrary: a) simp_all

lemma concat_map_if:
  "concat (map (\<lambda>x. if P x then [f x] else []) xs) = map f (filter P xs)"
  by (induction xs) simp_all

lemma filter_list_all: "list_all P xs \<Longrightarrow> filter P xs = xs"
  by (induction xs) simp_all

lemma foldl_step_concat:
  "(\<And>acc x. g acc x = acc @ f x) \<Longrightarrow> foldl g a xs = a @ concat (map f xs)"
  by (induction xs arbitrary: a) simp_all

lemma filter_concat_map:
  "filter P (concat (map f xs)) = concat (map (\<lambda>x. filter P (f x)) xs)"
  by (induction xs) simp_all

section \<open>Substrings\<close>

text \<open>\<open>Contains\<close> holds exactly when the text is some text, the substring, and some text.\<close>

lemma HasPrefix_iff: "HasPrefix s p = (\<exists>rest. s = p @ rest)"
  by (induction s p rule: HasPrefix.induct) auto

lemma Contains_iff: "Contains s substr = (\<exists>before after. s = before @ substr @ after)"
proof (induction s)
  case Nil
  then show ?case by auto
next
  case (Cons c cs)
  show ?case
  proof
    assume "Contains (c # cs) substr"
    then consider "HasPrefix (c # cs) substr" | "Contains cs substr" by auto
    then show "\<exists>before after. c # cs = before @ substr @ after"
    proof cases
      case 1
      then obtain rest where "c # cs = substr @ rest" by (auto simp: HasPrefix_iff)
      then have "c # cs = [] @ substr @ rest" by simp
      then show ?thesis by blast
    next
      case 2
      then obtain before after where "cs = before @ substr @ after" using Cons by blast
      then have "c # cs = (c # before) @ substr @ after" by simp
      then show ?thesis by blast
    qed
  next
    assume "\<exists>before after. c # cs = before @ substr @ after"
    then obtain before after where eq: "c # cs = before @ substr @ after" by blast
    show "Contains (c # cs) substr"
    proof (cases before)
      case Nil
      with eq have "HasPrefix (c # cs) substr" by (auto simp: HasPrefix_iff)
      then show ?thesis by simp
    next
      case (Cons b before')
      with eq have "cs = before' @ substr @ after" by simp
      then have "Contains cs substr" using Cons.IH by blast
      then show ?thesis by simp
    qed
  qed
qed

section \<open>Properties of the check counts\<close>

lemma countCheck_Total: "Total (countCheck counts check) = Total counts + 1"
  by (simp add: countCheck_def Let_def)

lemma countCheck_bucketSum:
  "bucketSum (countCheck counts check) = bucketSum counts + (if tallied check then 1 else 0)"
  by (simp add: countCheck_def Let_def bucketSum_def tallied_def)

lemma foldl_countCheck_Total:
  "Total (foldl countCheck counts checkResults) = Total counts + int (length checkResults)"
  by (induction checkResults arbitrary: counts) (simp_all add: countCheck_Total)

lemma foldl_countCheck_bucketSum:
  "bucketSum (foldl countCheck counts checkResults) =
     bucketSum counts + int (length (filter tallied checkResults))"
  by (induction checkResults arbitrary: counts) (simp_all add: countCheck_bucketSum)

lemma length_filter_eq_iff: "(length (filter P xs) = length xs) = list_all P xs"
proof (cases "list_all P xs")
  case True
  then have "filter P xs = xs" by (simp add: list_all_iff)
  with True show ?thesis by simp
next
  case False
  then obtain x where "x \<in> set xs" and "\<not> P x" by (auto simp: list_all_iff)
  then have "length (filter P xs) < length xs" by (rule length_filter_less)
  with False show ?thesis by simp
qed

text \<open>
  C1, as the code has it. For every list of check results, \<open>Total\<close> is the length of
  the list, and \<open>Pass + Fail + Manual + Error + Info\<close> is the number of results whose
  status is one of PASS, FAIL, MANUAL, ERROR and INFO. The sum equals \<open>Total\<close> exactly
  when every status in the list is one of these five.
\<close>

theorem GetCheckCounts_Total_and_buckets:
  "Total (GetCheckCounts checkResults) = int (length checkResults) \<and>
   Pass (GetCheckCounts checkResults) + Fail (GetCheckCounts checkResults) +
     Manual (GetCheckCounts checkResults) + Error (GetCheckCounts checkResults) +
     Info (GetCheckCounts checkResults) = int (length (filter tallied checkResults)) \<and>
   (Pass (GetCheckCounts checkResults) + Fail (GetCheckCounts checkResults) +
     Manual (GetCheckCounts checkResults) + Error (GetCheckCounts checkResults) +
     Info (GetCheckCounts checkResults) = Total (GetCheckCounts checkResults))
    = list_all tallied checkResults"
proof -
  let ?c = "GetCheckCounts checkResults"
  have total: "Total ?c = int (length checkResults)"
    by (simp add: GetCheckCounts_def foldl_countCheck_Total emptyCounts_def)
  have "bucketSum ?c = int (length (filter tallied checkResults))"
    using foldl_countCheck_bucketSum [of emptyCounts checkResults]
    by (simp add: GetCheckCounts_def) (simp add: bucketSum_def emptyCounts_def)
  then have buckets: "Pass ?c + Fail ?c + Manual ?c + Error ?c + Info ?c =
      int (length (filter tallied checkResults))"
    by (simp add: bucketSum_def)
  show ?thesis
    using total buckets by (simp add: length_filter_eq_iff)
qed

text \<open>
  C1, as the claim states it, fails: a single result with the status NOT-APPLICABLE is
  counted in \<open>Total\<close> and in none of the five buckets.
\<close>

theorem GetCheckCounts_unknown_status_counterexample:
  "Total (GetCheckCounts [notApplicableCheck]) = 1 \<and>
   Pass (GetCheckCounts [notApplicableCheck]) + Fail (GetCheckCounts [notApplicableCheck]) +
     Manual (GetCheckCounts [notApplicableCheck]) + Error (GetCheckCounts [notApplicableCheck]) +
     Info (GetCheckCounts [notApplicableCheck]) = 0"
  by (simp add: GetCheckCounts_def countCheck_def emptyCounts_def notApplicableCheck_def
      CheckPass_def CheckFail_def CheckManual_def CheckError_def CheckInfo_def Let_def)

section \<open>Properties of the floating-point arithmetic\<close>

text \<open>
  The rounded quotient has a mantissa of 53 bits, and it differs from the exact
  quotient by at most the fraction \<open>1 / 2 ^ 53\<close> of it. The same holds of the value of a
  converted \<open>int\<close>, of a quotient and of a product of two numbers.
\<close>

lemma bits_upper: "n < 2 ^ bits n"
proof (induction n rule: bits.induct)
  case (1 n)
  show ?case
  proof (cases "n = 0")
    case True
    then show ?thesis by (simp add: bits.simps)
  next
    case False
    with 1 have "n div 2 < 2 ^ bits (n div 2)" by simp
    then have "n < 2 * 2 ^ bits (n div 2)" by linarith
    with False show ?thesis by (subst bits.simps) simp
  qed
qed

lemma bits_lower: "0 < n \<Longrightarrow> 2 ^ (bits n - 1) \<le> n"
proof (induction n rule: bits.induct)
  case (1 n)
  show ?case
  proof (cases "n div 2 = 0")
    case True
    with 1(2) have "bits n = 1" by (simp add: bits.simps)
    with 1(2) show ?thesis by simp
  next
    case False
    with 1 have ih: "2 ^ (bits (n div 2) - 1) \<le> n div 2" by simp
    from False have "0 < bits (n div 2)" by (subst bits.simps) simp
    then have "(2::nat) ^ bits (n div 2) = 2 * 2 ^ (bits (n div 2) - 1)"
      by (cases "bits (n div 2)") simp_all
    moreover have "bits n - 1 = bits (n div 2)" using 1(2) by (subst bits.simps) simp
    ultimately have "(2::nat) ^ (bits n - 1) = 2 * 2 ^ (bits (n div 2) - 1)" by simp
    also have "\<dots> \<le> 2 * (n div 2)" using ih by simp
    also have "\<dots> \<le> n" by simp
    finally show ?thesis .
  qed
qed

lemma roundHalfEven_error:
  assumes "0 < d"
  shows "\<bar>real (roundHalfEven n d) - real n / real d\<bar> \<le> 1 / 2"
proof -
  define q r where "q = n div d" and "r = n mod d"
  have n: "real n = real q * real d + real r"
    unfolding q_def r_def by (metis div_mult_mod_eq of_nat_add of_nat_mult)
  have r: "r < d" unfolding r_def using assms by simp
  have quot: "real n / real d = real q + real r / real d"
    using assms by (simp add: n field_simps)
  consider "2 * r < d" | "d < 2 * r" | "2 * r = d" by linarith
  then show ?thesis
  proof cases
    case 1
    then have "roundHalfEven n d = q" by (simp add: roundHalfEven_def q_def r_def Let_def)
    moreover have "real r / real d \<le> 1 / 2" using 1 assms by (simp add: field_simps)
    ultimately show ?thesis using quot by simp
  next
    case 2
    then have "roundHalfEven n d = q + 1" by (simp add: roundHalfEven_def q_def r_def Let_def)
    moreover have "1 / 2 \<le> real r / real d" using 2 assms by (simp add: field_simps)
    moreover have "real r / real d \<le> 1" using r assms by (simp add: field_simps)
    ultimately show ?thesis using quot by simp
  next
    case 3
    then have "roundHalfEven n d = q \<or> roundHalfEven n d = q + 1"
      by (simp add: roundHalfEven_def q_def r_def Let_def)
    moreover have "real r / real d = 1 / 2" using 3 assms by (simp add: field_simps)
    ultimately show ?thesis using quot by auto
  qed
qed

lemma scaled_ratio:
  assumes "0 < d"
  shows "real (n * 2 ^ nat (- k)) / real (d * 2 ^ nat k) = (real n / real d) / 2 powi k"
proof (cases "0 \<le> k")
  case True
  then show ?thesis by (simp add: power_int_def)
next
  case False
  then show ?thesis by (simp add: power_int_def field_simps)
qed

lemma roundRatio_error:
  assumes "0 < n" and "0 < d" and "roundRatio n d = (m, k)"
  shows "\<bar>real m * 2 powi k - real n / real d\<bar> \<le> (real n / real d) / 2 ^ 53"
proof -
  define x where "x = real n / real d"
  define k0 where "k0 = int (bits n) - int (bits d) - 53"
  have xpos: "0 < x" using assms by (simp add: x_def)
  have k: "k = (if 2 ^ 53 * (d * 2 ^ nat k0) \<le> n * 2 ^ nat (- k0) then k0 + 1 else k0)"
    and m: "m = roundHalfEven (n * 2 ^ nat (- k)) (d * 2 ^ nat k)"
    using assms by (auto simp: roundRatio_def Let_def k0_def)
  have pos: "(0::real) < 2 powi k" for k :: int by simp
  \<comment> \<open>the scaled quotient is at least \<open>2 ^ 52\<close>\<close>
  have "2 ^ (bits n - 1) \<le> n" using bits_lower assms by simp
  moreover have "d < 2 ^ bits d" by (rule bits_upper)
  ultimately have "real (2 ^ (bits n - 1)) \<le> real n" and "real d < real (2 ^ bits d)"
    by (simp_all only: of_nat_le_iff of_nat_less_iff)
  then have n_low: "2 powi (int (bits n) - 1) \<le> real n" and d_up: "real d < 2 powi int (bits d)"
    using bits_lower [OF assms(1)] assms(1)
    by (simp_all add: power_int_def nat_diff_distrib' bits.simps [of n])
  have "2 powi (int (bits n) - 1) / 2 powi int (bits d) \<le> real n / real d"
    using n_low d_up assms by (intro frac_le) simp_all
  moreover have "k0 + 52 = (int (bits n) - 1) - int (bits d)" by (simp add: k0_def)
  then have "(2::real) powi (k0 + 52) = 2 powi ((int (bits n) - 1) - int (bits d))"
    by (rule arg_cong)
  then have "(2::real) powi (k0 + 52) = 2 powi (int (bits n) - 1) / 2 powi int (bits d)"
    by (simp add: power_int_diff)
  ultimately have x_low: "2 powi (k0 + 52) \<le> x"
    by (simp only: x_def)
  have scaled_low: "2 ^ 52 \<le> x / 2 powi k"
  proof (cases "2 ^ 53 * (d * 2 ^ nat k0) \<le> n * 2 ^ nat (- k0)")
    case True
    then have "real (2 ^ 53 * (d * 2 ^ nat k0)) \<le> real (n * 2 ^ nat (- k0))"
      by (simp only: of_nat_le_iff)
    then have "2 ^ 53 \<le> real (n * 2 ^ nat (- k0)) / real (d * 2 ^ nat k0)"
      using assms by (simp add: field_simps)
    then have "2 ^ 53 \<le> x / 2 powi k0"
      using scaled_ratio [OF assms(2), of n k0] by (simp add: x_def)
    moreover have "k = k0 + 1" using True k by simp
    ultimately show ?thesis by (simp add: power_int_add field_simps)
  next
    case False
    then have "k = k0" using k by simp
    moreover have "2 powi (k0 + 52) / 2 powi k0 \<le> x / 2 powi k0"
      using x_low by (simp add: divide_right_mono)
    ultimately show ?thesis by (simp add: power_int_add)
  qed
  have "\<bar>real m - x / 2 powi k\<bar> \<le> 1 / 2"
    using roundHalfEven_error [of "d * 2 ^ nat k" "n * 2 ^ nat (- k)"] assms
      scaled_ratio [OF assms(2), of n k]
    by (simp add: m x_def)
  then have "\<bar>real m - x / 2 powi k\<bar> * 2 powi k \<le> 1 / 2 * 2 powi k"
    by (intro mult_right_mono) simp_all
  moreover have "(real m - x / 2 powi k) * 2 powi k = real m * 2 powi k - x"
    by (simp add: left_diff_distrib)
  then have "\<bar>real m * 2 powi k - x\<bar> = \<bar>real m - x / 2 powi k\<bar> * \<bar>2 powi k\<bar>"
    by (simp only: abs_mult [symmetric])
  ultimately have "\<bar>real m * 2 powi k - x\<bar> \<le> 2 powi k / 2"
    by simp
  moreover have "2 powi k / 2 \<le> x / 2 ^ 53"
    using scaled_low by (simp add: field_simps)
  ultimately show ?thesis by (simp add: x_def)
qed

lemma roundHalfEven_between:
  assumes "0 < d" and "lo * d \<le> n" and "n \<le> hi * d"
  shows "lo \<le> roundHalfEven n d \<and> roundHalfEven n d \<le> hi"
proof -
  have low: "lo \<le> n div d"
    using assms(1,2) by (metis div_le_mono nonzero_mult_div_cancel_right less_numeral_extra(3))
  have "n div d \<le> roundHalfEven n d" by (simp add: roundHalfEven_def Let_def)
  with low have "lo \<le> roundHalfEven n d" by simp
  moreover have "roundHalfEven n d \<le> hi"
  proof (cases "n = hi * d")
    case True
    with assms(1) show ?thesis by (simp add: roundHalfEven_def Let_def)
  next
    case False
    with assms(3) have "n < hi * d" by simp
    then have "n div d < hi" using assms(1) by (simp add: div_less_iff_less_mult)
    moreover have "roundHalfEven n d \<le> n div d + 1" by (simp add: roundHalfEven_def Let_def)
    ultimately show ?thesis by simp
  qed
  ultimately show ?thesis by simp
qed

lemma roundRatio_mantissa:
  assumes "0 < n" and "0 < d" and "roundRatio n d = (m, k)"
  shows "2 ^ 52 \<le> m \<and> m \<le> 2 ^ 53"
proof -
  define x where "x = real n / real d"
  define k0 where "k0 = int (bits n) - int (bits d) - 53"
  define num den where "num = n * 2 ^ nat (- k)" and "den = d * 2 ^ nat k"
  have k: "k = (if 2 ^ 53 * (d * 2 ^ nat k0) \<le> n * 2 ^ nat (- k0) then k0 + 1 else k0)"
    and m: "m = roundHalfEven num den"
    using assms by (auto simp: roundRatio_def Let_def k0_def num_def den_def)
  have den: "0 < den" using assms by (simp add: den_def)
  have scaled: "real num / real den = x / 2 powi k"
    unfolding num_def den_def x_def by (rule scaled_ratio [OF assms(2)])
  have n_low: "2 powi (int (bits n) - 1) \<le> real n"
  proof -
    have "real (2 ^ (bits n - 1)) \<le> real n"
      using bits_lower [OF assms(1)] by (simp only: of_nat_le_iff)
    moreover have "0 < bits n" using assms(1) by (subst bits.simps) simp
    ultimately show ?thesis by (simp add: power_int_def nat_diff_distrib')
  qed
  have n_up: "real n < 2 powi int (bits n)"
    using bits_upper [of n] by (metis of_nat_less_iff of_nat_numeral of_nat_power power_int_of_nat)
  have d_low: "2 powi (int (bits d) - 1) \<le> real d"
  proof -
    have "real (2 ^ (bits d - 1)) \<le> real d"
      using bits_lower [OF assms(2)] by (simp only: of_nat_le_iff)
    moreover have "0 < bits d" using assms(2) by (subst bits.simps) simp
    ultimately show ?thesis by (simp add: power_int_def nat_diff_distrib')
  qed
  have d_up: "real d < 2 powi int (bits d)"
    using bits_upper [of d] by (metis of_nat_less_iff of_nat_numeral of_nat_power power_int_of_nat)
  have x_low: "2 powi (k0 + 52) \<le> x"
  proof -
    have "2 powi (int (bits n) - 1) / 2 powi int (bits d) \<le> real n / real d"
      using n_low d_up assms by (intro frac_le) simp_all
    moreover have "k0 + 52 = (int (bits n) - 1) - int (bits d)" by (simp add: k0_def)
    then have "(2::real) powi (k0 + 52) = 2 powi ((int (bits n) - 1) - int (bits d))"
      by (rule arg_cong)
    then have "(2::real) powi (k0 + 52) = 2 powi (int (bits n) - 1) / 2 powi int (bits d)"
      by (simp add: power_int_diff)
    ultimately show ?thesis by (simp only: x_def)
  qed
  have x_up: "x < 2 powi (k0 + 54)"
  proof -
    have "real n / real d < 2 powi int (bits n) / 2 powi (int (bits d) - 1)"
      using n_up d_low assms by (intro frac_less) simp_all
    moreover have "k0 + 54 = int (bits n) - (int (bits d) - 1)" by (simp add: k0_def)
    then have "(2::real) powi (k0 + 54) = 2 powi (int (bits n) - (int (bits d) - 1))"
      by (rule arg_cong)
    then have "(2::real) powi (k0 + 54) = 2 powi int (bits n) / 2 powi (int (bits d) - 1)"
      by (simp only: power_int_diff [of "2::real", simplified])
    ultimately show ?thesis by (simp only: x_def)
  qed
  have range: "2 ^ 52 \<le> x / 2 powi k \<and> x / 2 powi k < 2 ^ 53"
  proof (cases "2 ^ 53 * (d * 2 ^ nat k0) \<le> n * 2 ^ nat (- k0)")
    case True
    then have "real (2 ^ 53 * (d * 2 ^ nat k0)) \<le> real (n * 2 ^ nat (- k0))"
      by (simp only: of_nat_le_iff)
    then have "2 ^ 53 \<le> real (n * 2 ^ nat (- k0)) / real (d * 2 ^ nat k0)"
      using assms by (simp add: field_simps)
    then have "2 ^ 53 \<le> x / 2 powi k0"
      using scaled_ratio [OF assms(2), of n k0] by (simp add: x_def)
    moreover have "x / 2 powi k0 < 2 powi (k0 + 54) / 2 powi k0"
      using x_up by (simp add: divide_strict_right_mono)
    moreover have k1: "k = k0 + 1" using True k by simp
    ultimately show ?thesis by (simp add: power_int_add field_simps)
  next
    case False
    then have "real (n * 2 ^ nat (- k0)) < real (2 ^ 53 * (d * 2 ^ nat k0))"
      by (simp only: of_nat_less_iff not_le)
    then have "real (n * 2 ^ nat (- k0)) / real (d * 2 ^ nat k0) < 2 ^ 53"
      using assms by (simp add: field_simps)
    then have "x / 2 powi k0 < 2 ^ 53"
      using scaled_ratio [OF assms(2), of n k0] by (simp add: x_def)
    moreover have "2 powi (k0 + 52) / 2 powi k0 \<le> x / 2 powi k0"
      using x_low by (simp add: divide_right_mono)
    moreover have "k = k0" using False k by simp
    ultimately show ?thesis by (simp add: power_int_add)
  qed
  then have "2 ^ 52 \<le> real num / real den" and "real num / real den \<le> 2 ^ 53"
    by (simp_all add: scaled)
  then have "real (2 ^ 52 * den) \<le> real num" and "real num \<le> real (2 ^ 53 * den)"
    using den by (simp_all add: field_simps)
  then have "2 ^ 52 * den \<le> num" and "num \<le> 2 ^ 53 * den"
    by (simp_all only: of_nat_le_iff)
  then show ?thesis unfolding m by (intro roundHalfEven_between den)
qed

lemma signed_scaled_error:
  fixes a r c s :: real
  assumes "\<bar>a - r\<bar> \<le> r / 2 ^ 53" and "0 < c" and "\<bar>s\<bar> = 1"
  shows "\<bar>s * a * c - s * r * c\<bar> \<le> \<bar>s * r * c\<bar> / 2 ^ 53"
proof -
  have "0 \<le> r / 2 ^ 53" using assms(1) abs_ge_zero [of "a - r"] by linarith
  then have r: "0 \<le> r" by (simp add: zero_le_divide_iff)
  have "s * a * c - s * r * c = s * ((a - r) * c)" by (simp add: algebra_simps)
  then have "\<bar>s * a * c - s * r * c\<bar> = \<bar>a - r\<bar> * c"
    using assms(2,3) by (simp add: abs_mult)
  also have "\<dots> \<le> r / 2 ^ 53 * c"
    using assms(1,2) by (intro mult_right_mono) simp_all
  also have "\<dots> = \<bar>s * r * c\<bar> / 2 ^ 53"
    using r assms(2,3) by (simp add: abs_mult)
  finally show ?thesis .
qed

lemma sign_abs: "\<bar>if b then - 1 else (1::real)\<bar> = 1"
  by simp

lemma roundRatio_zero: "roundRatio 0 d = (0, 0)"
  by (simp add: roundRatio_def)

lemma valueOf_fromInt:
  "\<bar>valueOf (fromInt i) - real_of_int i\<bar> \<le> \<bar>real_of_int i\<bar> / 2 ^ 53"
proof (cases "i = 0")
  case True
  then show ?thesis by (simp add: fromInt_def roundRatio_zero valueOf_def)
next
  case False
  obtain m k where mk: "roundRatio (nat \<bar>i\<bar>) 1 = (m, k)" by (cases "roundRatio (nat \<bar>i\<bar>) 1")
  have "\<bar>real m * 2 powi k - real (nat \<bar>i\<bar>) / real 1\<bar> \<le> (real (nat \<bar>i\<bar>) / real 1) / 2 ^ 53"
    using False by (intro roundRatio_error [OF _ _ mk]) simp_all
  then have err: "\<bar>real m * 2 powi k - real (nat \<bar>i\<bar>)\<bar> \<le> real (nat \<bar>i\<bar>) / 2 ^ 53" by simp
  define s :: real where "s = (if i < 0 then - 1 else 1)"
  have bound: "\<bar>s * (real m * 2 powi k) * 1 - s * real (nat \<bar>i\<bar>) * 1\<bar>
      \<le> \<bar>s * real (nat \<bar>i\<bar>) * 1\<bar> / 2 ^ 53"
    by (rule signed_scaled_error [OF err]) (simp_all add: s_def)
  have approx: "s * (real m * 2 powi k) * 1 = valueOf (fromInt i)"
    using mk by (simp add: fromInt_def valueOf_def s_def)
  have exact: "s * real (nat \<bar>i\<bar>) * 1 = real_of_int i" by (simp add: s_def)
  from bound show ?thesis unfolding approx exact .
qed

lemma valueOf_fdiv:
  assumes "mantissa y \<noteq> 0"
  shows "\<bar>valueOf (fdiv x y) - valueOf x / valueOf y\<bar> \<le> \<bar>valueOf x / valueOf y\<bar> / 2 ^ 53"
proof (cases "mantissa x = 0")
  case True
  then show ?thesis by (simp add: fdiv_def roundRatio_zero valueOf_def)
next
  case False
  obtain m k where mk: "roundRatio (mantissa x) (mantissa y) = (m, k)"
    by (cases "roundRatio (mantissa x) (mantissa y)")
  define s :: real where "s = (if negative x \<noteq> negative y then - 1 else 1)"
  define c :: real where "c = 2 powi (exponent x - exponent y)"
  have err: "\<bar>real m * 2 powi k - real (mantissa x) / real (mantissa y)\<bar>
      \<le> (real (mantissa x) / real (mantissa y)) / 2 ^ 53"
    using False assms by (intro roundRatio_error [OF _ _ mk]) simp_all
  have bound: "\<bar>s * (real m * 2 powi k) * c - s * (real (mantissa x) / real (mantissa y)) * c\<bar>
      \<le> \<bar>s * (real (mantissa x) / real (mantissa y)) * c\<bar> / 2 ^ 53"
    by (rule signed_scaled_error [OF err]) (simp_all add: c_def s_def)
  have approx: "s * (real m * 2 powi k) * c = valueOf (fdiv x y)"
    by (simp add: fdiv_def mk valueOf_def s_def c_def power_int_add power_int_diff)
  have exact: "s * (real (mantissa x) / real (mantissa y)) * c = valueOf x / valueOf y"
    using assms by (simp add: valueOf_def s_def c_def power_int_diff)
  from bound show ?thesis unfolding approx exact .
qed

lemma valueOf_fmul:
  "\<bar>valueOf (fmul x y) - valueOf x * valueOf y\<bar> \<le> \<bar>valueOf x * valueOf y\<bar> / 2 ^ 53"
proof (cases "mantissa x * mantissa y = 0")
  case True
  then show ?thesis by (auto simp: fmul_def roundRatio_zero valueOf_def)
next
  case False
  obtain m k where mk: "roundRatio (mantissa x * mantissa y) 1 = (m, k)"
    by (cases "roundRatio (mantissa x * mantissa y) 1")
  define s :: real where "s = (if negative x \<noteq> negative y then - 1 else 1)"
  define c :: real where "c = 2 powi (exponent x + exponent y)"
  have "\<bar>real m * 2 powi k - real (mantissa x * mantissa y) / real 1\<bar>
      \<le> (real (mantissa x * mantissa y) / real 1) / 2 ^ 53"
    using False by (intro roundRatio_error [OF _ _ mk]) simp_all
  then have err: "\<bar>real m * 2 powi k - real (mantissa x * mantissa y)\<bar>
      \<le> real (mantissa x * mantissa y) / 2 ^ 53" by simp
  have bound: "\<bar>s * (real m * 2 powi k) * c - s * real (mantissa x * mantissa y) * c\<bar>
      \<le> \<bar>s * real (mantissa x * mantissa y) * c\<bar> / 2 ^ 53"
    by (rule signed_scaled_error [OF err]) (simp_all add: c_def s_def)
  have approx: "s * (real m * 2 powi k) * c = valueOf (fmul x y)"
    using mk by (simp add: fmul_def valueOf_def s_def c_def power_int_add)
  have exact: "s * real (mantissa x * mantissa y) * c = valueOf x * valueOf y"
    by (simp add: valueOf_def s_def c_def power_int_add)
  from bound show ?thesis unfolding approx exact .
qed

text \<open>How relative errors add up over a quotient and over two steps.\<close>

lemma close_trans:
  fixes x y z :: real
  assumes "\<bar>x - y\<bar> \<le> e1 * \<bar>y\<bar>" and "\<bar>z - x\<bar> \<le> e2 * \<bar>x\<bar>" and "0 \<le> e2"
  shows "\<bar>z - y\<bar> \<le> (e1 + e2 + e2 * e1) * \<bar>y\<bar>"
proof -
  have "\<bar>x\<bar> \<le> \<bar>y\<bar> + \<bar>x - y\<bar>" by simp
  then have "\<bar>x\<bar> \<le> \<bar>y\<bar> + e1 * \<bar>y\<bar>" using assms(1) by linarith
  then have "e2 * \<bar>x\<bar> \<le> e2 * (\<bar>y\<bar> + e1 * \<bar>y\<bar>)"
    using assms(3) by (rule mult_left_mono)
  then have "\<bar>z - x\<bar> \<le> e2 * \<bar>y\<bar> + e2 * e1 * \<bar>y\<bar>"
    using assms(2) by (simp add: distrib_left)
  moreover have "\<bar>z - y\<bar> \<le> \<bar>z - x\<bar> + \<bar>x - y\<bar>" by simp
  ultimately have "\<bar>z - y\<bar> \<le> e2 * \<bar>y\<bar> + e2 * e1 * \<bar>y\<bar> + e1 * \<bar>y\<bar>"
    using assms(1) by linarith
  then show ?thesis by (simp add: distrib_right)
qed

lemma close_div:
  fixes a b p c :: real
  assumes a: "\<bar>a - p\<bar> \<le> e * \<bar>p\<bar>" and b: "\<bar>b - c\<bar> \<le> e * \<bar>c\<bar>"
    and c: "c \<noteq> 0" and e: "0 \<le> e" "e \<le> 1 / 3"
  shows "\<bar>a / b - p / c\<bar> \<le> 3 * e * \<bar>p / c\<bar>"
proof -
  have "e * \<bar>c\<bar> \<le> 1 / 3 * \<bar>c\<bar>" using e by (intro mult_right_mono) simp_all
  moreover have "\<bar>c\<bar> \<le> \<bar>b\<bar> + \<bar>b - c\<bar>" by simp
  ultimately have b_low: "2 / 3 * \<bar>c\<bar> \<le> \<bar>b\<bar>" using b by linarith
  then have b0: "b \<noteq> 0" using c by auto
  have "a / b - p / c = ((a - p) * c - p * (b - c)) / (b * c)"
    using b0 c by (simp add: field_simps)
  then have "\<bar>a / b - p / c\<bar> = \<bar>(a - p) * c - p * (b - c)\<bar> / (\<bar>b\<bar> * \<bar>c\<bar>)"
    by (simp add: abs_mult)
  moreover have "\<bar>(a - p) * c - p * (b - c)\<bar> \<le> 2 * e * \<bar>p\<bar> * \<bar>c\<bar>"
  proof -
    have "\<bar>(a - p) * c - p * (b - c)\<bar> \<le> \<bar>a - p\<bar> * \<bar>c\<bar> + \<bar>p\<bar> * \<bar>b - c\<bar>"
      using abs_triangle_ineq4 [of "(a - p) * c" "p * (b - c)"] by (simp add: abs_mult)
    moreover have "\<bar>a - p\<bar> * \<bar>c\<bar> \<le> e * \<bar>p\<bar> * \<bar>c\<bar>"
      using a by (intro mult_right_mono) simp_all
    moreover have "\<bar>p\<bar> * \<bar>b - c\<bar> \<le> \<bar>p\<bar> * (e * \<bar>c\<bar>)"
      using b by (intro mult_left_mono) simp_all
    then have "\<bar>p\<bar> * \<bar>b - c\<bar> \<le> e * \<bar>p\<bar> * \<bar>c\<bar>"
      by (simp add: mult.left_commute mult.assoc)
    ultimately show ?thesis by linarith
  qed
  ultimately have "\<bar>a / b - p / c\<bar> \<le> (2 * e * \<bar>p\<bar> * \<bar>c\<bar>) / (\<bar>b\<bar> * \<bar>c\<bar>)"
    by (simp only: divide_right_mono abs_ge_zero mult_nonneg_nonneg)
  also have "\<dots> = 2 * e * \<bar>p\<bar> / \<bar>b\<bar>" using c by simp
  also have "\<dots> \<le> 2 * e * \<bar>p\<bar> / (2 / 3 * \<bar>c\<bar>)"
    using b_low c e by (intro divide_left_mono mult_pos_pos) (simp_all add: b0)
  also have "\<dots> = 3 * e * \<bar>p / c\<bar>" using c by (simp add: field_simps)
  finally show ?thesis .
qed

lemma rounding_budget:
  fixes u :: real
  assumes "0 \<le> u" and "u \<le> 1 / 3"
  shows "(3 * u + u + u * (3 * u)) + u + u * (3 * u + u + u * (3 * u)) \<le> 8 * u"
proof -
  have uu: "u * u \<le> u * (1 / 3)" using assms by (intro mult_left_mono) simp_all
  have "u * (u * u) \<le> u * (u * (1 / 3))" using uu assms(1) by (rule mult_left_mono)
  also have "\<dots> = (u * u) * (1 / 3)" by simp
  also have "\<dots> \<le> (u * (1 / 3)) * (1 / 3)" using uu by (intro mult_right_mono) simp_all
  finally have uuu: "u * (u * u) \<le> u / 9" by simp
  have "(3 * u + u + u * (3 * u)) + u + u * (3 * u + u + u * (3 * u)) =
      5 * u + 7 * (u * u) + 3 * (u * (u * u))"
    by (simp add: algebra_simps)
  with uu uuu assms(1) show ?thesis by linarith
qed

text \<open>Rewrite rules that compute \<open>bits\<close> at a numeral.\<close>

lemma bits_0: "bits 0 = 0"
  by (simp add: bits.simps)

lemma bits_pos: "0 < n \<Longrightarrow> bits n = Suc (bits (n div 2))"
  by (subst bits.simps) simp

lemma fromInt_100: "fromInt 100 = Float False 7036874417766400 (- 46)"
  by (simp add: fromInt_def roundRatio_def roundHalfEven_def bits_0 bits_pos Let_def)

lemma fromInt_mantissa:
  assumes "i \<noteq> 0"
  shows "mantissa (fromInt i) \<noteq> 0"
proof
  assume "mantissa (fromInt i) = 0"
  then have "valueOf (fromInt i) = 0" by (simp add: valueOf_def)
  with valueOf_fromInt [of i] have "\<bar>real_of_int i\<bar> \<le> \<bar>real_of_int i\<bar> / 2 ^ 53" by simp
  moreover have "\<bar>real_of_int i\<bar> / 2 ^ 53 \<le> \<bar>real_of_int i\<bar> / 2"
    by (intro divide_left_mono) simp_all
  ultimately have "\<bar>real_of_int i\<bar> \<le> 0" by linarith
  with assms show False by simp
qed

lemma percentage_accuracy:
  assumes "A \<noteq> 0"
  shows "\<bar>valueOf (fmul (fdiv (fromInt P) (fromInt A)) (fromInt 100)) -
            100 * real_of_int P / real_of_int A\<bar>
         \<le> \<bar>100 * real_of_int P / real_of_int A\<bar> / 2 ^ 50"
proof -
  define u :: real where "u = 1 / 2 ^ 53"
  define t where "t = real_of_int P / real_of_int A"
  define q where "q = valueOf (fdiv (fromInt P) (fromInt A))"
  define r where "r = valueOf (fmul (fdiv (fromInt P) (fromInt A)) (fromInt 100))"
  have u: "0 \<le> u" "u \<le> 1 / 3" by (simp_all add: u_def)
  have a: "\<bar>valueOf (fromInt P) - real_of_int P\<bar> \<le> u * \<bar>real_of_int P\<bar>"
    using valueOf_fromInt [of P] by (simp add: u_def)
  have b: "\<bar>valueOf (fromInt A) - real_of_int A\<bar> \<le> u * \<bar>real_of_int A\<bar>"
    using valueOf_fromInt [of A] by (simp add: u_def)
  have A: "real_of_int A \<noteq> 0" using assms by simp
  have ratio: "\<bar>valueOf (fromInt P) / valueOf (fromInt A) - t\<bar> \<le> 3 * u * \<bar>t\<bar>"
    unfolding t_def by (rule close_div [OF a b A u])
  have rounded: "\<bar>q - valueOf (fromInt P) / valueOf (fromInt A)\<bar>
      \<le> u * \<bar>valueOf (fromInt P) / valueOf (fromInt A)\<bar>"
    using valueOf_fdiv [OF fromInt_mantissa [OF assms], of "fromInt P"]
    unfolding q_def u_def by simp
  have quotient: "\<bar>q - t\<bar> \<le> (3 * u + u + u * (3 * u)) * \<bar>t\<bar>"
    by (rule close_trans [OF ratio rounded u(1)])
  have hundred: "valueOf (fromInt 100) = 100" by (simp add: fromInt_100 valueOf_def)
  have product: "\<bar>r - q * 100\<bar> \<le> u * \<bar>q * 100\<bar>"
    using valueOf_fmul [of "fdiv (fromInt P) (fromInt A)" "fromInt 100"]
    unfolding r_def q_def hundred u_def by simp
  have scaled: "\<bar>q * 100 - t * 100\<bar> \<le> (3 * u + u + u * (3 * u)) * \<bar>t * 100\<bar>"
  proof -
    have eq: "q * 100 - t * 100 = (q - t) * 100" by (simp add: left_diff_distrib)
    have "\<bar>q * 100 - t * 100\<bar> = \<bar>(q - t) * 100\<bar>" by (simp only: eq)
    also have "\<dots> = \<bar>q - t\<bar> * \<bar>100\<bar>" by (rule abs_mult)
    also have "\<dots> = \<bar>q - t\<bar> * 100" by simp
    also have "\<dots> \<le> ((3 * u + u + u * (3 * u)) * \<bar>t\<bar>) * 100"
      using quotient by (intro mult_right_mono) simp_all
    also have "\<dots> = (3 * u + u + u * (3 * u)) * \<bar>t * 100\<bar>" by (simp add: abs_mult)
    finally show ?thesis .
  qed
  have "\<bar>r - t * 100\<bar>
      \<le> ((3 * u + u + u * (3 * u)) + u + u * (3 * u + u + u * (3 * u))) * \<bar>t * 100\<bar>"
    by (rule close_trans [OF scaled product u(1)])
  also have "\<dots> \<le> (8 * u) * \<bar>t * 100\<bar>"
    using rounding_budget [OF u] by (intro mult_right_mono) simp_all
  also have "\<dots> = \<bar>t * 100\<bar> / 2 ^ 50" by (simp add: u_def)
  finally have "\<bar>r - t * 100\<bar> \<le> \<bar>t * 100\<bar> / 2 ^ 50" .
  moreover have "t * 100 = 100 * real_of_int P / real_of_int A" by (simp add: t_def)
  ultimately show ?thesis unfolding r_def by simp
qed

section \<open>Properties of the compliance percentage\<close>

lemma wrap64_id: "- (2 ^ 63) \<le> i \<Longrightarrow> i < 2 ^ 63 \<Longrightarrow> wrap64 i = i"
  by (simp add: wrap64_def)

text \<open>
  C8, as the code has it. For counts whose \<open>Pass + Fail\<close> fits the 64-bit \<open>int\<close>,
  \<open>CalculateCompliancePercentage\<close> returns 0 when \<open>Total\<close> is 0 or \<open>Pass + Fail\<close> is 0.
  Otherwise it returns the \<open>float64\<close> product of 100 and the \<open>float64\<close> quotient of
  \<open>Pass\<close> by \<open>Pass + Fail\<close>, which differs from \<open>100 * Pass / (Pass + Fail)\<close> by at
  most the fraction \<open>1 / 2 ^ 50\<close> of it. \<open>Manual\<close>, \<open>Error\<close> and \<open>Info\<close> are not read.
\<close>

theorem CalculateCompliancePercentage_guarded:
  assumes "- (2 ^ 63) \<le> Pass counts + Fail counts" and "Pass counts + Fail counts < 2 ^ 63"
  shows "if Total counts = 0 \<or> Pass counts + Fail counts = 0
         then CalculateCompliancePercentage counts = Float False 0 0
         else CalculateCompliancePercentage counts =
                fmul (fdiv (fromInt (Pass counts)) (fromInt (Pass counts + Fail counts)))
                  (fromInt 100) \<and>
              \<bar>valueOf (CalculateCompliancePercentage counts) -
                 100 * real_of_int (Pass counts) / real_of_int (Pass counts + Fail counts)\<bar>
              \<le> \<bar>100 * real_of_int (Pass counts) / real_of_int (Pass counts + Fail counts)\<bar>
                  / 2 ^ 50"
proof (cases "Total counts = 0 \<or> Pass counts + Fail counts = 0")
  case True
  then show ?thesis
    using assms by (auto simp: CalculateCompliancePercentage_def wrap64_id Let_def)
next
  case False
  then have result: "CalculateCompliancePercentage counts =
      fmul (fdiv (fromInt (Pass counts)) (fromInt (Pass counts + Fail counts))) (fromInt 100)"
    using assms by (simp add: CalculateCompliancePercentage_def wrap64_id Let_def)
  from False have "Pass counts + Fail counts \<noteq> 0" by simp
  then have "\<bar>valueOf (fmul (fdiv (fromInt (Pass counts)) (fromInt (Pass counts + Fail counts)))
                 (fromInt 100)) -
        100 * real_of_int (Pass counts) / real_of_int (Pass counts + Fail counts)\<bar>
      \<le> \<bar>100 * real_of_int (Pass counts) / real_of_int (Pass counts + Fail counts)\<bar> / 2 ^ 50"
    by (rule percentage_accuracy)
  with False result show ?thesis by simp
qed

theorem CalculateCompliancePercentage_guarded_witness:
  "valueOf (CalculateCompliancePercentage
     \<lparr>Pass = 3, Fail = 1, Manual = 2, Error = 0, Info = 0, Total = 6\<rparr>) = 75 \<and>
   valueOf (CalculateCompliancePercentage
     \<lparr>Pass = 0, Fail = 0, Manual = 0, Error = 0, Info = 0, Total = 0\<rparr>) = 0 \<and>
   valueOf (CalculateCompliancePercentage
     \<lparr>Pass = 5, Fail = 0, Manual = 0, Error = 0, Info = 0, Total = 5\<rparr>) = 100 \<and>
   valueOf (CalculateCompliancePercentage
     \<lparr>Pass = 7, Fail = 93, Manual = 0, Error = 0, Info = 0, Total = 100\<rparr>) = 7 + 1 / 2 ^ 50"
  using CalculateCompliancePercentage_guarded
      [of "\<lparr>Pass = 3, Fail = 1, Manual = 2, Error = 0, Info = 0, Total = 6\<rparr>"]
    CalculateCompliancePercentage_guarded
      [of "\<lparr>Pass = 0, Fail = 0, Manual = 0, Error = 0, Info = 0, Total = 0\<rparr>"]
    CalculateCompliancePercentage_guarded
      [of "\<lparr>Pass = 5, Fail = 0, Manual = 0, Error = 0, Info = 0, Total = 5\<rparr>"]
    CalculateCompliancePercentage_guarded
      [of "\<lparr>Pass = 7, Fail = 93, Manual = 0, Error = 0, Info = 0, Total = 100\<rparr>"]
  by (simp add: valueOf_def fromInt_def fdiv_def fmul_def roundRatio_def roundHalfEven_def
      bits_0 bits_pos Let_def)

text \<open>
  C8, as the claim states it, fails: the counts with \<open>Pass = 3\<close>, \<open>Fail = 1\<close>,
  \<open>Manual = 2\<close> and \<open>Total\<close> left at 0 give 0, where \<open>100 * Pass / (Pass + Fail)\<close> is 75.
\<close>

theorem CalculateCompliancePercentage_zero_Total_counterexample:
  "CalculateCompliancePercentage
     \<lparr>Pass = 3, Fail = 1, Manual = 2, Error = 0, Info = 0, Total = 0\<rparr> = Float False 0 0 \<and>
   valueOf (CalculateCompliancePercentage
     \<lparr>Pass = 3, Fail = 1, Manual = 2, Error = 0, Info = 0, Total = 0\<rparr>) = 0 \<and>
   100 * real_of_int 3 / real_of_int (3 + 1) = (75::real)"
  by (simp add: CalculateCompliancePercentage_def valueOf_def)

section \<open>Properties of the snapshot collector\<close>

lemma collectScan_Scans: "Scans (collectScan c data scan) = (Scans data)(scan_Name scan \<mapsto> scan)"
  by (simp add: collectScan_def Let_def split: sum.splits)

lemma collectScan_CheckResults:
  "CheckResults (collectScan c data scan) =
     (case GetComplianceCheckResults c (scan_Name scan) [] of
        Inr checkResults \<Rightarrow> (CheckResults data)(scan_Name scan \<mapsto> checkResults)
      | Inl err \<Rightarrow> CheckResults data)"
  by (simp add: collectScan_def Let_def split: sum.splits)

lemma collectScan_Remediations:
  "Remediations (collectScan c data scan) =
     (case GetComplianceRemediations c (scan_Name scan) of
        Inr remediations \<Rightarrow> (Remediations data)(scan_Name scan \<mapsto> remediations)
      | Inl err \<Rightarrow> Remediations data)"
  by (simp add: collectScan_def Let_def split: sum.splits)

lemma foldl_collectScan_dom_Scans:
  "dom (Scans (foldl (collectScan c) data scans)) = dom (Scans data) \<union> scan_Name ` set scans"
proof (induction scans rule: rev_induct)
  case Nil
  then show ?case by simp
next
  case (snoc scan scans)
  have "Scans (foldl (collectScan c) data (scans @ [scan])) =
      (Scans (foldl (collectScan c) data scans))(scan_Name scan \<mapsto> scan)"
    by (simp add: collectScan_Scans)
  then have "dom (Scans (foldl (collectScan c) data (scans @ [scan]))) =
      insert (scan_Name scan) (dom (Scans (foldl (collectScan c) data scans)))"
    by (simp only: dom_fun_upd) simp
  with snoc show ?case by simp
qed

lemma foldl_collectScan_Scans_distinct:
  "distinct (map scan_Name scans) \<Longrightarrow> scan \<in> set scans \<Longrightarrow>
   Scans (foldl (collectScan c) data scans) (scan_Name scan) = Some scan"
  by (induction scans rule: rev_induct) (auto simp: collectScan_Scans image_iff)

lemma foldl_collectScan_CheckResults:
  "CheckResults (foldl (collectScan c) data scans) name =
     (if name \<in> scan_Name ` set scans
      then (case GetComplianceCheckResults c name [] of
              Inr checkResults \<Rightarrow> Some checkResults
            | Inl err \<Rightarrow> CheckResults data name)
      else CheckResults data name)"
  by (induction scans rule: rev_induct) (auto simp: collectScan_CheckResults split: sum.splits)

lemma foldl_collectScan_Remediations:
  "Remediations (foldl (collectScan c) data scans) name =
     (if name \<in> scan_Name ` set scans
      then (case GetComplianceRemediations c name of
              Inr remediations \<Rightarrow> Some remediations
            | Inl err \<Rightarrow> Remediations data name)
      else Remediations data name)"
  by (induction scans rule: rev_induct) (auto simp: collectScan_Remediations split: sum.splits)

lemma collectOperatorStatus_Inr:
  "GetOperatorPods c = Inr pods \<Longrightarrow> \<exists>status. collectOperatorStatus c = Inr status"
  by (simp add: collectOperatorStatus_def Let_def)

lemma collectOperatorStatus_Inl:
  "GetOperatorPods c = Inl err \<Longrightarrow>
   collectOperatorStatus c = Inl (''failed to get operator pods: '' @ err)"
  by (simp add: collectOperatorStatus_def)

text \<open>
  C2. When the suites, the scans and the operator pods are listed without error and
  the check results of one scan cannot be fetched, \<open>CollectAllData\<close> returns a
  snapshot; that scan's name is a key of \<open>Scans\<close> and not a key of \<open>CheckResults\<close>.
  Every listed scan is a key of \<open>Scans\<close>, and its entries in \<open>CheckResults\<close> and
  \<open>Remediations\<close> are what its own two fetches returned, whatever the fetches of the
  other scans did. When the scans have distinct names, each is stored under its name.
\<close>

theorem CollectAllData_partial_failure:
  assumes suites: "GetComplianceSuites c = Inr suites"
    and scans: "GetComplianceScans c [] = Inr allScans"
    and pods: "GetOperatorPods c = Inr pods"
    and scan: "scan \<in> set allScans"
    and failed: "GetComplianceCheckResults c (scan_Name scan) [] = Inl err"
  shows "\<exists>data. CollectAllData c now = Inr data \<and>
           scan_Name scan \<in> dom (Scans data) \<and>
           scan_Name scan \<notin> dom (CheckResults data) \<and>
           (\<forall>other \<in> set allScans.
              scan_Name other \<in> dom (Scans data) \<and>
              CheckResults data (scan_Name other) =
                (case GetComplianceCheckResults c (scan_Name other) [] of
                   Inr checkResults \<Rightarrow> Some checkResults | Inl err \<Rightarrow> None) \<and>
              Remediations data (scan_Name other) =
                (case GetComplianceRemediations c (scan_Name other) of
                   Inr remediations \<Rightarrow> Some remediations | Inl err \<Rightarrow> None)) \<and>
           (distinct (map scan_Name allScans) \<longrightarrow>
              (\<forall>other \<in> set allScans. Scans data (scan_Name other) = Some other))"
proof -
  obtain status where status: "collectOperatorStatus c = Inr status"
    using collectOperatorStatus_Inr [OF pods] by blast
  define data0 where "data0 = \<lparr>Suites = suites, Scans = Map.empty, CheckResults = Map.empty,
      Remediations = Map.empty,
      OperatorStatus = \<lparr>OperatorPods = [], IsHealthy = False, Issues = []\<rparr>,
      Timestamp = now\<rparr>"
  define data where "data = (foldl (collectScan c) data0 allScans)\<lparr>OperatorStatus := status\<rparr>"
  have result: "CollectAllData c now = Inr data"
    by (simp add: CollectAllData_def suites scans status data_def data0_def)
  have dom_Scans: "dom (Scans data) = scan_Name ` set allScans"
    by (simp add: data_def foldl_collectScan_dom_Scans) (simp add: data0_def)
  have checks: "CheckResults data name =
      (if name \<in> scan_Name ` set allScans
       then (case GetComplianceCheckResults c name [] of
               Inr checkResults \<Rightarrow> Some checkResults | Inl err \<Rightarrow> None)
       else None)" for name
    by (simp add: data_def foldl_collectScan_CheckResults data0_def split: sum.splits)
  have rems: "Remediations data name =
      (if name \<in> scan_Name ` set allScans
       then (case GetComplianceRemediations c name of
               Inr remediations \<Rightarrow> Some remediations | Inl err \<Rightarrow> None)
       else None)" for name
    by (simp add: data_def foldl_collectScan_Remediations data0_def split: sum.splits)
  have distinct: "Scans data (scan_Name other) = Some other"
    if "distinct (map scan_Name allScans)" and "other \<in> set allScans" for other
    using that by (simp add: data_def foldl_collectScan_Scans_distinct)
  have "scan_Name scan \<in> dom (Scans data)"
    using scan by (simp add: dom_Scans)
  moreover have "scan_Name scan \<notin> dom (CheckResults data)"
    using scan failed by (simp add: checks domIff)
  moreover have "\<forall>other \<in> set allScans.
      scan_Name other \<in> dom (Scans data) \<and>
      CheckResults data (scan_Name other) =
        (case GetComplianceCheckResults c (scan_Name other) [] of
           Inr checkResults \<Rightarrow> Some checkResults | Inl err \<Rightarrow> None) \<and>
      Remediations data (scan_Name other) =
        (case GetComplianceRemediations c (scan_Name other) of
           Inr remediations \<Rightarrow> Some remediations | Inl err \<Rightarrow> None)"
    by (simp add: dom_Scans checks rems)
  ultimately show ?thesis
    using result distinct by blast
qed

theorem CollectAllData_partial_failure_witness:
  "\<exists>data. CollectAllData partialClient 0 = Inr data \<and>
     Scans data ''ocp4-cis'' = Some platformScan \<and>
     CheckResults data ''ocp4-cis'' = None \<and>
     Scans data ''ocp4-cis-node-worker'' = Some nodeScan \<and>
     CheckResults data ''ocp4-cis-node-worker'' = Some [notApplicableCheck] \<and>
     Remediations data ''ocp4-cis-node-worker'' = Some []"
proof -
  have "\<exists>data. CollectAllData partialClient 0 = Inr data \<and>
      scan_Name platformScan \<in> dom (Scans data) \<and>
      scan_Name platformScan \<notin> dom (CheckResults data) \<and>
      (\<forall>other \<in> set [platformScan, nodeScan].
         scan_Name other \<in> dom (Scans data) \<and>
         CheckResults data (scan_Name other) =
           (case GetComplianceCheckResults partialClient (scan_Name other) [] of
              Inr checkResults \<Rightarrow> Some checkResults | Inl err \<Rightarrow> None) \<and>
         Remediations data (scan_Name other) =
           (case GetComplianceRemediations partialClient (scan_Name other) of
              Inr remediations \<Rightarrow> Some remediations | Inl err \<Rightarrow> None)) \<and>
      (distinct (map scan_Name [platformScan, nodeScan]) \<longrightarrow>
         (\<forall>other \<in> set [platformScan, nodeScan]. Scans data (scan_Name other) = Some other))"
    by (rule CollectAllData_partial_failure
          [of partialClient "[]" "[platformScan, nodeScan]" "[quietPod]" platformScan
             "''failed to list check results: timeout''" 0])
       (simp_all add: partialClient_def platformScan_def nodeScan_def)
  then obtain data where "CollectAllData partialClient 0 = Inr data"
    and "scan_Name platformScan \<notin> dom (CheckResults data)"
    and "\<forall>other \<in> set [platformScan, nodeScan].
         CheckResults data (scan_Name other) =
           (case GetComplianceCheckResults partialClient (scan_Name other) [] of
              Inr checkResults \<Rightarrow> Some checkResults | Inl err \<Rightarrow> None) \<and>
         Remediations data (scan_Name other) =
           (case GetComplianceRemediations partialClient (scan_Name other) of
              Inr remediations \<Rightarrow> Some remediations | Inl err \<Rightarrow> None)"
    and "distinct (map scan_Name [platformScan, nodeScan]) \<longrightarrow>
         (\<forall>other \<in> set [platformScan, nodeScan]. Scans data (scan_Name other) = Some other)"
    by blast
  then have "CollectAllData partialClient 0 = Inr data \<and>
     Scans data ''ocp4-cis'' = Some platformScan \<and>
     CheckResults data ''ocp4-cis'' = None \<and>
     Scans data ''ocp4-cis-node-worker'' = Some nodeScan \<and>
     CheckResults data ''ocp4-cis-node-worker'' = Some [notApplicableCheck] \<and>
     Remediations data ''ocp4-cis-node-worker'' = Some []"
    by (simp add: partialClient_def platformScan_def nodeScan_def domIff)
  then show ?thesis by blast
qed

text \<open>
  C10. When listing the operator pods fails, \<open>CollectAllData\<close> returns an error and
  no snapshot. When the suites and the scans were listed without error, the error is
  that of the operator status, whatever the fetches for the scans returned.
\<close>

theorem CollectAllData_operator_pods_fatal:
  assumes "GetOperatorPods c = Inl err"
  shows "isl (CollectAllData c now) \<and>
         (\<forall>suites allScans.
            GetComplianceSuites c = Inr suites \<longrightarrow> GetComplianceScans c [] = Inr allScans \<longrightarrow>
            CollectAllData c now =
              Inl (''failed to collect operator status: '' @ ''failed to get operator pods: '' @ err))"
  using collectOperatorStatus_Inl [OF assms]
  by (simp add: CollectAllData_def Let_def split: sum.splits)

theorem CollectAllData_operator_pods_fatal_witness:
  "CollectAllData noPodsClient 0 =
     Inl ''failed to collect operator status: failed to get operator pods: failed to list operator pods: connection refused''"
  using CollectAllData_operator_pods_fatal
    [of noPodsClient "''failed to list operator pods: connection refused''" 0]
  by (simp add: noPodsClient_def)

section \<open>Properties of the operator health\<close>

lemma foldl_restarts:
  "foldl (\<lambda>restarts cs. restarts + RestartCount cs) acc containers =
     acc + sum_list (map RestartCount containers)"
  by (induction containers arbitrary: acc) (simp_all add: add.assoc)

lemma countRestarts_sum_list:
  "countRestarts pod = sum_list (map RestartCount (ContainerStatuses pod))"
  by (simp add: countRestarts_def foldl_restarts)

lemma checkOperatorPod_IsHealthy:
  "IsHealthy (checkOperatorPod status pod) =
     (IsHealthy status \<and> pod_Phase pod = PodRunning \<and> isPodReady pod)"
  by (simp add: checkOperatorPod_def Let_def)

lemma checkOperatorPod_Issues:
  "Issues (checkOperatorPod status pod) =
     Issues status @
     (if pod_Phase pod \<noteq> PodRunning
      then [''Pod '' @ pod_Name pod @ '' is in phase '' @ pod_Phase pod] else []) @
     (if \<not> isPodReady pod then [''Pod '' @ pod_Name pod @ '' is not ready''] else []) @
     (if 5 < sint (countRestarts pod)
      then [''Pod '' @ pod_Name pod @ '' has restarted '' @
            showInt (sint (countRestarts pod)) @ '' times'']
      else [])"
  by (simp add: checkOperatorPod_def Let_def)

lemma foldl_checkOperatorPod_IsHealthy:
  "IsHealthy (foldl checkOperatorPod status pods) =
     (IsHealthy status \<and> list_all (\<lambda>pod. pod_Phase pod = PodRunning \<and> isPodReady pod) pods)"
  by (induction pods arbitrary: status) (auto simp: checkOperatorPod_IsHealthy)

lemma foldl_checkOperatorPod_Issues:
  "Issues (foldl checkOperatorPod status pods) =
     Issues status @
     concat (map (\<lambda>pod.
       (if pod_Phase pod \<noteq> PodRunning
        then [''Pod '' @ pod_Name pod @ '' is in phase '' @ pod_Phase pod] else []) @
       (if \<not> isPodReady pod then [''Pod '' @ pod_Name pod @ '' is not ready''] else []) @
       (if 5 < sint (countRestarts pod)
        then [''Pod '' @ pod_Name pod @ '' has restarted '' @
              showInt (sint (countRestarts pod)) @ '' times'']
        else [])) pods)"
  by (induction pods arbitrary: status) (simp_all add: checkOperatorPod_Issues)

text \<open>
  C4, as the code has it. For a non-empty list of operator pods, the status is healthy
  exactly when every pod is Running and Ready, and the issues are, pod by pod, one
  line when the phase is not Running, one when the pod is not ready, and one when the
  restart total of the pod, the \<open>int32\<close> sum of the restart counts of its containers,
  exceeds 5. The restart line does not touch \<open>IsHealthy\<close>, and a Running and Ready
  pod whose restart total is at most 5 adds no issue.
\<close>

theorem collectOperatorStatus_restart_total:
  assumes "GetOperatorPods c = Inr pods" and "pods \<noteq> []"
  shows "\<exists>status. collectOperatorStatus c = Inr status \<and>
           IsHealthy status =
             list_all (\<lambda>pod. pod_Phase pod = PodRunning \<and> isPodReady pod) pods \<and>
           Issues status =
             concat (map (\<lambda>pod.
               (if pod_Phase pod \<noteq> PodRunning
                then [''Pod '' @ pod_Name pod @ '' is in phase '' @ pod_Phase pod] else []) @
               (if \<not> isPodReady pod then [''Pod '' @ pod_Name pod @ '' is not ready''] else []) @
               (if 5 < sint (sum_list (map RestartCount (ContainerStatuses pod)))
                then [''Pod '' @ pod_Name pod @ '' has restarted '' @
                      showInt (sint (sum_list (map RestartCount (ContainerStatuses pod)))) @
                      '' times'']
                else [])) pods)"
  using assms unfolding countRestarts_sum_list [symmetric]
  by (simp add: collectOperatorStatus_def foldl_checkOperatorPod_IsHealthy
      foldl_checkOperatorPod_Issues)

theorem collectOperatorStatus_restart_total_witness:
  "\<exists>status. collectOperatorStatus (operatorClient [quietPod]) = Inr status \<and>
     IsHealthy status \<and> Issues status = []"
  using collectOperatorStatus_restart_total [of "operatorClient [quietPod]" "[quietPod]"]
  by (simp add: operatorClient_def quietPod_def readyCondition_def noState_def
      isPodReady_def PodRunning_def PodReady_def ConditionTrue_def)

text \<open>
  C4, as the claim states it, fails: a Running and Ready pod with two containers that
  restarted 3 times each, none above 5, gets a restart issue for the total of 6.
\<close>

theorem collectOperatorStatus_pod_total_counterexample:
  "map RestartCount (ContainerStatuses restartedPod) = [3, 3] \<and>
   collectOperatorStatus (operatorClient [restartedPod]) =
     Inr \<lparr>OperatorPods =
            [\<lparr>status_Name = ''compliance-operator-7d9f'', status_Phase = ''Running'',
              status_Reason = [], status_Ready = True, status_Restarts = 6\<rparr>],
          IsHealthy = True,
          Issues = [''Pod compliance-operator-7d9f has restarted 6 times'']\<rparr>"
  by (simp add: collectOperatorStatus_def checkOperatorPod_def countRestarts_def
      operatorClient_def restartedPod_def readyCondition_def noState_def isPodReady_def
      PodRunning_def PodReady_def ConditionTrue_def showInt_def showNat_small digit_simps)

section \<open>Properties of the stuck-scan rule\<close>

lemma DetectStuckScans_concat:
  "DetectStuckScans now scans =
     concat (map (\<lambda>scan. runningIssues now scan @ launchingIssues now scan @
                           errorResultIssues scan) scans)"
  by (simp add: DetectStuckScans_def foldl_append_concat)

lemma Since_exceeds:
  "bound < maxDuration \<Longrightarrow> minDuration \<le> bound \<Longrightarrow> (bound < Since now t) = (bound < now - t)"
  by (auto simp: Since_def Sub_def Let_def)

lemma Since_exceeds_30_minutes: "(30 * Minute < Since now t) = (30 * Minute < now - t)"
  by (rule Since_exceeds) (simp_all add: Minute_def Second_def maxDuration_def minDuration_def)

lemma stuck_runningIssues:
  "filter (\<lambda>issue. Type issue = IssueTypeStuckScan) (runningIssues now scan) =
     runningIssues now scan"
  by (rule filter_list_all) (simp add: runningIssues_def Let_def split: option.splits)

lemma runningIssues_Severity:
  "map Severity (runningIssues now scan) =
   (if scan_Phase scan = PhaseRunning
    then (case scan_StartTimestamp scan of
            None \<Rightarrow> []
          | Some start \<Rightarrow> if 30 * Minute < now - start then [SeverityCritical] else [])
    else [])"
  by (simp add: runningIssues_def Let_def Since_exceeds_30_minutes split: option.splits)

lemma runningIssues_Resources:
  "map Resources (runningIssues now scan) =
   (if scan_Phase scan = PhaseRunning
    then (case scan_StartTimestamp scan of
            None \<Rightarrow> []
          | Some start \<Rightarrow> if 30 * Minute < now - start then [[scan_Name scan]] else [])
    else [])"
  by (simp add: runningIssues_def Let_def Since_exceeds_30_minutes split: option.splits)

lemma stuck_launchingIssues_running:
  "scan_Phase scan = PhaseRunning \<Longrightarrow> launchingIssues now scan = []"
  by (simp add: launchingIssues_def PhaseRunning_def PhaseLaunching_def)

lemma stuck_errorResultIssues:
  "filter (\<lambda>issue. Type issue = IssueTypeStuckScan) (errorResultIssues scan) = []"
  by (simp add: errorResultIssues_def IssueTypeStuckScan_def IssueTypeFailedPod_def)

text \<open>
  C3. For a scan in the phase Running, the StuckScan issues that \<open>DetectStuckScans\<close>
  emits for it are: one issue, Critical and naming the scan, when the start timestamp
  is present and the clock's reading minus the timestamp exceeds 30 minutes; none when
  the difference is 30 minutes or less; none when the timestamp is absent. In a list
  of scans, the StuckScan issues are those of the scans before it, then its own, then
  those of the scans after it.
\<close>

theorem DetectStuckScans_running:
  assumes "scan_Phase scan = PhaseRunning"
  shows "map Severity
           (filter (\<lambda>issue. Type issue = IssueTypeStuckScan) (DetectStuckScans now [scan])) =
         (case scan_StartTimestamp scan of
            None \<Rightarrow> []
          | Some start \<Rightarrow> if 30 * Minute < now - start then [SeverityCritical] else []) \<and>
         map Resources
           (filter (\<lambda>issue. Type issue = IssueTypeStuckScan) (DetectStuckScans now [scan])) =
         (case scan_StartTimestamp scan of
            None \<Rightarrow> []
          | Some start \<Rightarrow> if 30 * Minute < now - start then [[scan_Name scan]] else []) \<and>
         filter (\<lambda>issue. Type issue = IssueTypeStuckScan)
           (DetectStuckScans now (before @ scan # after)) =
         filter (\<lambda>issue. Type issue = IssueTypeStuckScan) (DetectStuckScans now before) @
         filter (\<lambda>issue. Type issue = IssueTypeStuckScan) (DetectStuckScans now [scan]) @
         filter (\<lambda>issue. Type issue = IssueTypeStuckScan) (DetectStuckScans now after)"
proof -
  have stuck: "filter (\<lambda>issue. Type issue = IssueTypeStuckScan) (DetectStuckScans now [scan]) =
      runningIssues now scan"
    by (simp add: DetectStuckScans_concat stuck_launchingIssues_running [OF assms]
        stuck_errorResultIssues stuck_runningIssues)
  have "map Severity (runningIssues now scan) =
      (case scan_StartTimestamp scan of
         None \<Rightarrow> []
       | Some start \<Rightarrow> if 30 * Minute < now - start then [SeverityCritical] else [])"
    using assms by (simp add: runningIssues_Severity)
  moreover have "map Resources (runningIssues now scan) =
      (case scan_StartTimestamp scan of
         None \<Rightarrow> []
       | Some start \<Rightarrow> if 30 * Minute < now - start then [[scan_Name scan]] else [])"
    using assms by (simp add: runningIssues_Resources)
  moreover have "filter (\<lambda>issue. Type issue = IssueTypeStuckScan)
      (DetectStuckScans now (before @ scan # after)) =
      filter (\<lambda>issue. Type issue = IssueTypeStuckScan) (DetectStuckScans now before) @
      filter (\<lambda>issue. Type issue = IssueTypeStuckScan) (DetectStuckScans now [scan]) @
      filter (\<lambda>issue. Type issue = IssueTypeStuckScan) (DetectStuckScans now after)"
    by (simp add: DetectStuckScans_concat)
  ultimately show ?thesis unfolding stuck by blast
qed

theorem DetectStuckScans_running_witness:
  "map Severity
     (filter (\<lambda>issue. Type issue = IssueTypeStuckScan)
        (DetectStuckScans (31 * Minute) [runningScan (Some 0)])) = [SeverityCritical] \<and>
   map Resources
     (filter (\<lambda>issue. Type issue = IssueTypeStuckScan)
        (DetectStuckScans (31 * Minute) [runningScan (Some 0)])) =
     [[''rhcos4-moderate-worker'']] \<and>
   map Description
     (filter (\<lambda>issue. Type issue = IssueTypeStuckScan)
        (DetectStuckScans (31 * Minute) [runningScan (Some 0)])) =
     [''Scan '' @ quoted ''rhcos4-moderate-worker'' @
      '' has been in RUNNING phase for 31m0s''] \<and>
   filter (\<lambda>issue. Type issue = IssueTypeStuckScan)
     (DetectStuckScans (29 * Minute) [runningScan (Some 0)]) = [] \<and>
   filter (\<lambda>issue. Type issue = IssueTypeStuckScan)
     (DetectStuckScans (31 * Minute) [runningScan None]) = []"
proof -
  have "map Description
      (filter (\<lambda>issue. Type issue = IssueTypeStuckScan)
         (DetectStuckScans (31 * Minute) [runningScan (Some 0)])) =
      [''Scan '' @ quoted ''rhcos4-moderate-worker'' @
       '' has been in RUNNING phase for 31m0s'']"
    by (simp add: DetectStuckScans_def runningIssues_def launchingIssues_def
        errorResultIssues_def runningScan_def PhaseRunning_def PhaseLaunching_def
        ResultError_def formatDuration_def Round_def Since_def Sub_def Minute_def Second_def
        minDuration_def maxDuration_def fmtFrac_numeral fmtFrac_1 showNat_small showNat_large
        digit_simps Let_def)
  then show ?thesis
    using DetectStuckScans_running [of "runningScan (Some 0)" "31 * Minute" "[]" "[]"]
      DetectStuckScans_running [of "runningScan (Some 0)" "29 * Minute" "[]" "[]"]
      DetectStuckScans_running [of "runningScan None" "31 * Minute" "[]" "[]"]
    by (simp add: runningScan_def PhaseRunning_def PhaseLaunching_def Minute_def Second_def)
qed

section \<open>Properties of the scan failure analysis\<close>

text \<open>
  C5, as the code has it. \<open>AnalyzeScanFailure\<close> returns the Critical issue that quotes
  the error message exactly when the result is ERROR or NON-COMPLIANT and the message is
  not empty, followed by the Warning issue exactly when the result is NON-COMPLIANT;
  for every other result it returns no issue.
\<close>

theorem AnalyzeScanFailure_cases:
  "AnalyzeScanFailure scan =
     (if (scan_Result scan = ResultError \<or> scan_Result scan = ResultNonCompliant) \<and>
         scan_ErrorMessage scan \<noteq> []
      then [\<lparr>Type = IssueTypeFailedPod, Severity = SeverityCritical,
             Description = ''Scan '' @ quoted (scan_Name scan) @ '' failed: '' @
               scan_ErrorMessage scan,
             Resources = [scan_Name scan],
             Suggestion = ''Review the error message and check scanner pod logs for more details.''\<rparr>]
      else []) @
     (if scan_Result scan = ResultNonCompliant
      then [\<lparr>Type = IssueTypeMisconfiguration, Severity = SeverityWarning,
             Description = ''Scan '' @ quoted (scan_Name scan) @
               '' found compliance violations'',
             Resources = [scan_Name scan],
             Suggestion = ''Review failed checks and apply available remediations. Some checks may require manual remediation.''\<rparr>]
      else [])"
  by (simp add: AnalyzeScanFailure_def Let_def ResultError_def ResultNonCompliant_def)

text \<open>
  C5, as the claim states it, fails: a scan with the result ERROR and an empty error
  message gets no issue.
\<close>

theorem AnalyzeScanFailure_silent_error_counterexample:
  "scan_Result erroredScan = ResultError \<and> AnalyzeScanFailure erroredScan = []"
  by (simp add: AnalyzeScanFailure_def erroredScan_def ResultError_def ResultNonCompliant_def)

section \<open>Properties of the permission rule\<close>

lemma keywordIssues_cases:
  "keywordIssues scanName event words =
     (if list_ex (Contains (event_Message event)) words
      then [\<lparr>Type = IssueTypePermission, Severity = SeverityCritical,
             Description = ''Permission issue in scan '' @ quoted scanName @ '': '' @
               event_Message event,
             Resources = [scanName, event_InvolvedObjectName event],
             Suggestion = ''Check ServiceAccount permissions and RBAC configuration. The compliance operator may not have sufficient permissions.''\<rparr>]
      else [])"
  by (induction words) simp_all

text \<open>
  C6. When the events of a scan are listed without error, \<open>DetectPermissionIssuesForScan\<close>
  returns, in the order of the events, one issue for each event of type Warning whose
  message contains at least one of the seven keywords, and nothing for any other event:
  the issue is a Critical Permission issue whose resources are the scan name and the
  name of the event's involved object. An event matching several keywords gives one
  issue, and an event of another type gives none.
\<close>

theorem DetectPermissionIssuesForScan_warning_events:
  assumes "GetEvents c ''ComplianceScan'' scanName = Inr events"
  shows "DetectPermissionIssuesForScan c scanName =
           Inr (map (\<lambda>event.
                  \<lparr>Type = IssueTypePermission, Severity = SeverityCritical,
                   Description = ''Permission issue in scan '' @ quoted scanName @ '': '' @
                     event_Message event,
                   Resources = [scanName, event_InvolvedObjectName event],
                   Suggestion = ''Check ServiceAccount permissions and RBAC configuration. The compliance operator may not have sufficient permissions.''\<rparr>)
                (filter (\<lambda>event. event_Type event = EventTypeWarning \<and>
                           list_ex (Contains (event_Message event))
                             [''Forbidden'', ''Unauthorized'', ''denied'',
                              ''insufficient permissions'', ''cannot create'', ''cannot get'',
                              ''cannot list''])
                   events))"
proof -
  have "eventIssues scanName =
      (\<lambda>event. if event_Type event = EventTypeWarning \<and>
          list_ex (Contains (event_Message event)) permissionKeywords
       then [\<lparr>Type = IssueTypePermission, Severity = SeverityCritical,
             Description = ''Permission issue in scan '' @ quoted scanName @ '': '' @
               event_Message event,
             Resources = [scanName, event_InvolvedObjectName event],
             Suggestion = ''Check ServiceAccount permissions and RBAC configuration. The compliance operator may not have sufficient permissions.''\<rparr>]
       else [])"
    by (rule ext) (simp add: eventIssues_def keywordIssues_cases)
  then have "concat (map (eventIssues scanName) events) =
      map (\<lambda>event.
             \<lparr>Type = IssueTypePermission, Severity = SeverityCritical,
              Description = ''Permission issue in scan '' @ quoted scanName @ '': '' @
                event_Message event,
              Resources = [scanName, event_InvolvedObjectName event],
              Suggestion = ''Check ServiceAccount permissions and RBAC configuration. The compliance operator may not have sufficient permissions.''\<rparr>)
        (filter (\<lambda>event. event_Type event = EventTypeWarning \<and>
                   list_ex (Contains (event_Message event)) permissionKeywords) events)"
    by (simp only: concat_map_if)
  then show ?thesis
    by (simp add: DetectPermissionIssuesForScan_def assms foldl_append_concat
        permissionKeywords_def)
qed

theorem DetectPermissionIssuesForScan_warning_events_witness:
  "DetectPermissionIssuesForScan
     (eventsClient [forbiddenEvent ''Warning'', forbiddenEvent ''Normal'']) ''ocp4-cis'' =
   Inr [\<lparr>Type = ''Permission'', Severity = ''Critical'',
         Description = ''Permission issue in scan '' @ quoted ''ocp4-cis'' @
           '': Forbidden: cannot list pods'',
         Resources = [''ocp4-cis'', ''ocp4-cis''],
         Suggestion = ''Check ServiceAccount permissions and RBAC configuration. The compliance operator may not have sufficient permissions.''\<rparr>]"
  using DetectPermissionIssuesForScan_warning_events
    [of "eventsClient [forbiddenEvent ''Warning'', forbiddenEvent ''Normal'']" "''ocp4-cis''"
       "[forbiddenEvent ''Warning'', forbiddenEvent ''Normal'']"]
  by (simp add: eventsClient_def forbiddenEvent_def EventTypeWarning_def
      IssueTypePermission_def SeverityCritical_def)

section \<open>Properties of the out-of-memory rule\<close>

lemma DetectFailedPods_concat:
  "DetectFailedPods pods =
     concat (map (\<lambda>pod.
       failedPhaseIssues pod @
       concat (map (\<lambda>cs. waitingIssues pod cs @ oomIssues pod cs) (ContainerStatuses pod)) @
       concat (map (restartIssues pod) (ContainerStatuses pod))) pods)"
proof -
  have "checkPod issues pod =
      issues @ failedPhaseIssues pod @
      concat (map (\<lambda>cs. waitingIssues pod cs @ oomIssues pod cs) (ContainerStatuses pod)) @
      concat (map (restartIssues pod) (ContainerStatuses pod))" for issues pod
    by (simp add: checkPod_def Let_def foldl_append_concat)
  then have "foldl checkPod [] pods = [] @
      concat (map (\<lambda>pod.
        failedPhaseIssues pod @
        concat (map (\<lambda>cs. waitingIssues pod cs @ oomIssues pod cs) (ContainerStatuses pod)) @
        concat (map (restartIssues pod) (ContainerStatuses pod))) pods)"
    by (rule foldl_step_concat)
  then show ?thesis
    by (simp add: DetectFailedPods_def)
qed

lemma oom_failedPhaseIssues:
  "filter (\<lambda>issue. Type issue = IssueTypeOOM) (failedPhaseIssues pod) = []"
  by (simp add: failedPhaseIssues_def IssueTypeOOM_def IssueTypeFailedPod_def)

lemma oom_waitingIssues:
  "filter (\<lambda>issue. Type issue = IssueTypeOOM) (waitingIssues pod cs) = []"
  by (simp add: waitingIssues_def IssueTypeOOM_def IssueTypeFailedPod_def Let_def split: option.splits)

lemma oom_restartIssues:
  "filter (\<lambda>issue. Type issue = IssueTypeOOM) (restartIssues pod cs) = []"
  by (simp add: restartIssues_def IssueTypeOOM_def IssueTypeFailedPod_def)

lemma oom_oomIssues:
  "filter (\<lambda>issue. Type issue = IssueTypeOOM) (oomIssues pod cs) = oomIssues pod cs"
  by (rule filter_list_all) (simp add: oomIssues_def split: option.splits)

text \<open>
  C7. The OutOfMemory issues that \<open>DetectFailedPods\<close> returns are, pod by pod and
  container by container, one Critical issue naming the pod for each container whose
  last termination has the reason OOMKilled; a container without such a termination
  adds none.
\<close>

theorem DetectFailedPods_OOM:
  "filter (\<lambda>issue. Type issue = IssueTypeOOM) (DetectFailedPods pods) =
     concat (map (\<lambda>pod.
       map (\<lambda>cs.
              \<lparr>Type = IssueTypeOOM, Severity = SeverityCritical,
               Description = ''Container '' @ quoted (container_Name cs) @ '' in pod '' @
                 quoted (pod_Name pod) @ '' was killed due to out of memory'',
               Resources = [pod_Name pod],
               Suggestion = ''Increase memory limits for scanner pods in ScanSetting. The scan requires more memory than allocated.''\<rparr>)
         (filter (\<lambda>cs. case Terminated (LastTerminationState cs) of
                          None \<Rightarrow> False
                        | Some terminated \<Rightarrow> terminated_Reason terminated = ''OOMKilled'')
            (ContainerStatuses pod))) pods)"
proof -
  have oom: "oomIssues pod =
      (\<lambda>cs. if (case Terminated (LastTerminationState cs) of
                     None \<Rightarrow> False
                   | Some terminated \<Rightarrow> terminated_Reason terminated = ''OOMKilled'')
            then [\<lparr>Type = IssueTypeOOM, Severity = SeverityCritical,
                   Description = ''Container '' @ quoted (container_Name cs) @ '' in pod '' @
                     quoted (pod_Name pod) @ '' was killed due to out of memory'',
                   Resources = [pod_Name pod],
                   Suggestion = ''Increase memory limits for scanner pods in ScanSetting. The scan requires more memory than allocated.''\<rparr>]
            else [])" for pod
    by (rule ext) (simp add: oomIssues_def split: option.splits)
  have "filter (\<lambda>issue. Type issue = IssueTypeOOM)
      (failedPhaseIssues pod @
       concat (map (\<lambda>cs. waitingIssues pod cs @ oomIssues pod cs) (ContainerStatuses pod)) @
       concat (map (restartIssues pod) (ContainerStatuses pod))) =
      concat (map (oomIssues pod) (ContainerStatuses pod))" for pod
    by (simp add: oom_failedPhaseIssues filter_concat_map oom_waitingIssues oom_restartIssues
        oom_oomIssues)
  then have "filter (\<lambda>issue. Type issue = IssueTypeOOM) (DetectFailedPods pods) =
      concat (map (\<lambda>pod. concat (map (oomIssues pod) (ContainerStatuses pod))) pods)"
    by (simp add: DetectFailedPods_concat filter_concat_map)
  then show ?thesis
    by (simp only: oom concat_map_if)
qed

theorem DetectFailedPods_OOM_witness:
  "filter (\<lambda>issue. Type issue = IssueTypeOOM) (DetectFailedPods [oomPod]) =
     [\<lparr>Type = ''OutOfMemory'', Severity = ''Critical'',
       Description = ''Container '' @ quoted ''scanner'' @ '' in pod '' @
         quoted ''ocp4-cis-api-checks-pod'' @ '' was killed due to out of memory'',
       Resources = [''ocp4-cis-api-checks-pod''],
       Suggestion = ''Increase memory limits for scanner pods in ScanSetting. The scan requires more memory than allocated.''\<rparr>]"
  using DetectFailedPods_OOM [of "[oomPod]"]
  by (simp add: oomPod_def noState_def IssueTypeOOM_def SeverityCritical_def)

section \<open>Properties of the status overview\<close>

text \<open>The counting loop of the result-count table counts the occurrences of each result.\<close>

lemma countScanResults_snoc:
  "countScanResults (scanStatuses @ [scanStatus]) =
     (countScanResults scanStatuses)(wrapper_Result scanStatus \<mapsto>
       (case countScanResults scanStatuses (wrapper_Result scanStatus) of
          None \<Rightarrow> 0 | Some n \<Rightarrow> n) + 1)"
  by (simp add: countScanResults_def)

lemma countScanResults_apply:
  "countScanResults scanStatuses result =
     (if result \<in> wrapper_Result ` set scanStatuses
      then Some (int (count_list (map wrapper_Result scanStatuses) result))
      else None)"
proof (induction scanStatuses rule: rev_induct)
  case Nil
  then show ?case by (simp add: countScanResults_def)
next
  case (snoc scanStatus scanStatuses)
  show ?case
  proof (cases "result = wrapper_Result scanStatus")
    case True
    then show ?thesis
      using snoc by (simp add: countScanResults_snoc count_list_0_iff)
  next
    case False
    then show ?thesis
      using snoc by (simp add: countScanResults_snoc)
  qed
qed
























end
